theory Spec2Isabelle
  imports Complex_Main "HOL-Library.Word"
begin

section \<open>Conjugate gradient on Riemannian manifolds\<close>

text \<open>
  The development follows \<^verbatim>\<open>include/mqf/optimization/conjugate_gradient.h\<close>.

  The optimizer is a template over the geometry. \<open>Point\<close> is the type variable \<open>'p\<close>,
  \<open>Vector\<close> is \<open>'v\<close>, and \<open>double\<close> is the type variable \<open>'r\<close>. The arithmetic the
  code applies to them is taken from the syntactic type classes only (\<open>uminus\<close>, \<open>plus\<close>,
  \<open>minus\<close> on vectors; \<open>inverse\<close> for the division, \<open>uminus\<close>, \<open>zero\<close>, \<open>ord\<close> on
  scalars), so no law of arithmetic is used: the theorems hold for every reading of
  these operations, that of IEEE doubles (where a division by zero gives an infinity
  or a NaN, and \<open>NaN \<le> 0\<close> is false) as well as that of the reals. The concrete runs
  instantiate \<open>'r\<close> with \<open>real\<close>.
\<close>

subsection \<open>Scheme tags\<close>

datatype Scheme = FletcherReeves | PolakRibiere | HestenesStiefel | ConjugateDescent | DaiYuan

text \<open>The default template argument: \<^verbatim>\<open>typename Scheme = HestenesStiefel\<close>.\<close>

definition default_Scheme :: Scheme where
  "default_Scheme = HestenesStiefel"

subsection \<open>Collaborators\<close>

text \<open>
  \<open>metric(p)\<close> returns an inner-product object; the code applies it to two vectors
  (\<open>innerProduct(u, v)\<close>) and asks it for \<open>norm2(v)\<close>.
\<close>

record ('v, 'r) InnerProduct =
  inner :: "'v \<Rightarrow> 'v \<Rightarrow> 'r"
  norm2 :: "'v \<Rightarrow> 'r"

text \<open>
  The \<open>Geodesic\<close> class is a template parameter and \<open>LineSearch\<close> comes from
  \<^verbatim>\<open>linesearch.h\<close>; neither is part of the file. Their member functions are taken
  as parameters, over an arbitrary state \<open>'g\<close> of the geodesic object and \<open>'l\<close> of the
  line-search object:
  \<^item> \<open>geo_set g p v\<close> is \<open>geodesic.set(p, v)\<close>, returning the updated object;
  \<^item> \<open>geo_at g t\<close> is \<open>geodesic(t)\<close>;
  \<^item> \<open>parallelTranslate g w t\<close> is \<open>geodesic.parallelTranslate(w, t)\<close>;
  \<^item> \<open>geo_velocity g\<close> reads the field \<open>geodesic.velocity\<close>;
  \<^item> \<open>ls_search l f df\<close> is \<open>lineSearch.search(f, df)\<close>, returning the step size and
    the updated object;
  \<^item> \<open>ls_reset l\<close> is \<open>lineSearch.reset()\<close>;
  \<^item> \<open>ls_alpha l\<close> reads the field \<open>lineSearch.alpha\<close>;
  \<^item> \<open>scale w r\<close> is \<open>Vector * double\<close>.

  Evaluating the geodesic, transporting a vector along it and reading a field leave
  the objects as they are; only \<open>set\<close>, \<open>search\<close> and \<open>reset\<close> return an updated object.
  \<open>metric\<close>, \<open>cost\<close> and \<open>gradient\<close> are functions of their arguments.
\<close>

record ('p, 'v, 'r, 'g, 'l) Collaborators =
  geo_set :: "'g \<Rightarrow> 'p \<Rightarrow> 'v \<Rightarrow> 'g"
  geo_at :: "'g \<Rightarrow> 'r \<Rightarrow> 'p"
  parallelTranslate :: "'g \<Rightarrow> 'v \<Rightarrow> 'r \<Rightarrow> 'v"
  geo_velocity :: "'g \<Rightarrow> 'v"
  ls_search :: "'l \<Rightarrow> ('r \<Rightarrow> 'r) \<Rightarrow> ('r \<Rightarrow> 'r) \<Rightarrow> 'r \<times> 'l"
  ls_reset :: "'l \<Rightarrow> 'l"
  ls_alpha :: "'l \<Rightarrow> 'r"
  scale :: "'v \<Rightarrow> 'r \<Rightarrow> 'v"

subsection \<open>The optimizer's fields\<close>

record ('p, 'v, 'r, 'g, 'l) ConjugateGradient =
  metric :: "'p \<Rightarrow> ('v, 'r) InnerProduct"
  geodesic :: 'g
  lineSearch :: 'l
  n :: "32 word"
  maxSteps :: "32 word"
  x :: 'p
  lastX :: 'p
  grad :: 'v
  lastGrad :: 'v
  velocity :: 'v
  ptLastVel :: 'v

subsection \<open>The scheme formulas\<close>

text \<open>
  \<open>modifier<Scheme>()\<close>, one equation per specialisation. In the conjugate-descent
  formula the unary minus applies to the numerator, as in C++.
\<close>

fun modifier ::
  "('p, 'v::minus, 'r::{inverse,uminus}, 'g, 'l) Collaborators \<Rightarrow> Scheme \<Rightarrow>
   ('p, 'v, 'r, 'g, 'l) ConjugateGradient \<Rightarrow> 'r" where
  "modifier K FletcherReeves s =
     norm2 (metric s (x s)) (grad s) / norm2 (metric s (lastX s)) (lastGrad s)"
| "modifier K PolakRibiere s =
     (let innerProduct = metric s (x s);
          ptlastGrad = parallelTranslate K (geodesic s) (lastGrad s) (ls_alpha K (lineSearch s))
      in inner innerProduct (grad s) (grad s - ptlastGrad) / norm2 innerProduct ptlastGrad)"
| "modifier K HestenesStiefel s =
     (let innerProduct = metric s (x s);
          ptlastGrad = parallelTranslate K (geodesic s) (lastGrad s) (ls_alpha K (lineSearch s));
          diff = grad s - ptlastGrad
      in inner innerProduct (grad s) diff / inner innerProduct (ptLastVel s) diff)"
| "modifier K ConjugateDescent s =
     (let innerProduct = metric s (x s);
          ptlastGrad = parallelTranslate K (geodesic s) (lastGrad s) (ls_alpha K (lineSearch s))
      in (- norm2 innerProduct (grad s)) / inner innerProduct (ptLastVel s) ptlastGrad)"
| "modifier K DaiYuan s =
     (let innerProduct = metric s (x s);
          ptlastGrad = parallelTranslate K (geodesic s) (lastGrad s) (ls_alpha K (lineSearch s))
      in norm2 innerProduct (grad s) / inner innerProduct (ptLastVel s) (grad s - ptlastGrad))"

subsection \<open>One iteration\<close>

text \<open>
  The call \<open>lineSearch.search(...)\<close> of \<open>step\<close> with its two closures: the first is
  \<open>[&](double t) { return cost(geodesic(t)); }\<close>, the second computes \<open>xt = geodesic(t)\<close>
  and returns \<open>metric(xt)(gradient(xt), geodesic.parallelTranslate(geodesic.velocity, t))\<close>.
  The closures capture the optimizer by reference; \<open>m\<close>, \<open>g\<close> and \<open>l\<close> are its metric,
  geodesic and line search at the time of the call.
\<close>

definition search_along ::
  "('p, 'v, 'r, 'g, 'l) Collaborators \<Rightarrow> ('p \<Rightarrow> ('v, 'r) InnerProduct) \<Rightarrow>
   ('p \<Rightarrow> 'r) \<Rightarrow> ('p \<Rightarrow> 'v) \<Rightarrow> 'g \<Rightarrow> 'l \<Rightarrow> 'r \<times> 'l" where
  "search_along K m cost gradient g l =
     ls_search K l
       (\<lambda>t. cost (geo_at K g t))
       (\<lambda>t. let xt = geo_at K g t
            in inner (m xt) (gradient xt) (parallelTranslate K g (geo_velocity K g) t))"

text \<open>
  \<open>step(cost, gradient)\<close>. Each \<open>let\<close> is one statement of the source; a \<open>swap\<close> is the
  simultaneous update of the two fields. The result is the returned \<open>bool\<close> and the
  optimizer after the call.
\<close>

definition step ::
  "('p, 'v::{uminus,plus,minus}, 'r::{inverse,uminus,zero,ord}, 'g, 'l) Collaborators \<Rightarrow> Scheme \<Rightarrow>
   ('p \<Rightarrow> 'r) \<Rightarrow> ('p \<Rightarrow> 'v) \<Rightarrow> ('p, 'v, 'r, 'g, 'l) ConjugateGradient \<Rightarrow>
   bool \<times> ('p, 'v, 'r, 'g, 'l) ConjugateGradient" where
  "step K sch cost gradient s =
     (let s1 = s\<lparr>lastGrad := grad s, grad := lastGrad s\<rparr>;
          s2 = s1\<lparr>grad := gradient (x s1)\<rparr>;
          s3 = s2\<lparr>velocity := - grad s2\<rparr>;
          s5 = (if 0 < n s3 then
                  (let s4 = s3\<lparr>ptLastVel := parallelTranslate K (geodesic s3)
                                    (geo_velocity K (geodesic s3)) (ls_alpha K (lineSearch s3))\<rparr>
                   in s4\<lparr>velocity := velocity s4 + scale K (ptLastVel s4) (modifier K sch s4)\<rparr>)
                else s3);
          s6 = s5\<lparr>geodesic := geo_set K (geodesic s5) (x s5) (velocity s5)\<rparr>;
          (alpha, l) = search_along K (metric s6) cost gradient (geodesic s6) (lineSearch s6);
          s7 = s6\<lparr>lineSearch := l\<rparr>
      in if alpha \<le> 0 then (False, s7)
         else (let s8 = s7\<lparr>lastX := x s7, x := lastX s7\<rparr>;
                   s9 = s8\<lparr>x := geo_at K (geodesic s8) alpha\<rparr>
               in (True, s9)))"

lemma step_n [simp]: "n (snd (step K sch cost gradient s)) = n s"
  by (simp add: step_def Let_def split: prod.splits)

lemma step_maxSteps [simp]: "maxSteps (snd (step K sch cost gradient s)) = maxSteps s"
  by (simp add: step_def Let_def split: prod.splits)

lemma step_metric [simp]: "metric (snd (step K sch cost gradient s)) = metric s"
  by (simp add: step_def Let_def split: prod.splits)

subsection \<open>The driver\<close>

lemma word_loop_measure:
  fixes a b :: "32 word"
  assumes "a < b"
  shows "unat (b - (a + 1)) < unat (b - a)"
  using assms by unat_arith

lemma step_decreases:
  assumes "n s < maxSteps s" and "(ok, s') = step K sch cost gradient s"
  shows "unat (maxSteps s' - (n s' + 1)) < unat (maxSteps s - n s)"
proof -
  from assms(2) have "s' = snd (step K sch cost gradient s)"
    by (metis snd_conv)
  with assms(1) show ?thesis
    by (simp add: word_loop_measure)
qed

text \<open>
  The loop \<open>for(n=0;n<maxSteps;++n) { if( !step( cost, gradient ) ) break; }\<close> from the
  point where its condition is tested: \<open>++n\<close> runs after a successful step only, and
  \<open>n\<close> is a \<open>uint32_t\<close>.
\<close>

function optimize_loop ::
  "('p, 'v::{uminus,plus,minus}, 'r::{inverse,uminus,zero,ord}, 'g, 'l) Collaborators \<Rightarrow> Scheme \<Rightarrow>
   ('p \<Rightarrow> 'r) \<Rightarrow> ('p \<Rightarrow> 'v) \<Rightarrow> ('p, 'v, 'r, 'g, 'l) ConjugateGradient \<Rightarrow>
   ('p, 'v, 'r, 'g, 'l) ConjugateGradient" where
  "optimize_loop K sch cost gradient s =
     (if n s < maxSteps s then
        (case step K sch cost gradient s of
           (ok, s') \<Rightarrow> if \<not> ok then s' else optimize_loop K sch cost gradient (s'\<lparr>n := n s' + 1\<rparr>))
      else s)"
  by pat_completeness auto
termination
proof (relation "measure (\<lambda>(K, sch, cost, gradient, s). unat (maxSteps s - n s))")
  show "wf (measure (\<lambda>(K, sch, cost, gradient, s). unat (maxSteps s - n s)))"
    by simp
next
  fix K :: "('p, 'v::{uminus,plus,minus}, 'r::{inverse,uminus,zero,ord}, 'g, 'l) Collaborators"
    and sch cost gradient
    and s :: "('p, 'v, 'r, 'g, 'l) ConjugateGradient"
    and ok s'
  assume "n s < maxSteps s" and "(ok, s') = step K sch cost gradient s" and "\<not> \<not> ok"
  then show "((K, sch, cost, gradient, s'\<lparr>n := n s' + 1\<rparr>), K, sch, cost, gradient, s)
      \<in> measure (\<lambda>(K, sch, cost, gradient, s). unat (maxSteps s - n s))"
    by (simp add: step_decreases)
qed

declare optimize_loop.simps [simp del]

text \<open>
  What \<open>optimize(initial, cost, gradient)\<close> does before the loop condition is first
  tested: \<open>x = initial\<close>, \<open>lineSearch.reset()\<close>, and the loop's \<open>n=0\<close>.
\<close>

definition optimize_start ::
  "('p, 'v, 'r, 'g, 'l) Collaborators \<Rightarrow> 'p \<Rightarrow> ('p, 'v, 'r, 'g, 'l) ConjugateGradient \<Rightarrow>
   ('p, 'v, 'r, 'g, 'l) ConjugateGradient" where
  "optimize_start K initial s =
     (let s1 = s\<lparr>x := initial\<rparr>;
          s2 = s1\<lparr>lineSearch := ls_reset K (lineSearch s1)\<rparr>
      in s2\<lparr>n := 0\<rparr>)"

text \<open>\<open>optimize\<close>: the returned point and the optimizer after the call.\<close>

definition optimize ::
  "('p, 'v::{uminus,plus,minus}, 'r::{inverse,uminus,zero,ord}, 'g, 'l) Collaborators \<Rightarrow> Scheme \<Rightarrow>
   'p \<Rightarrow> ('p \<Rightarrow> 'r) \<Rightarrow> ('p \<Rightarrow> 'v) \<Rightarrow> ('p, 'v, 'r, 'g, 'l) ConjugateGradient \<Rightarrow>
   'p \<times> ('p, 'v, 'r, 'g, 'l) ConjugateGradient" where
  "optimize K sch initial cost gradient s =
     (let s' = optimize_loop K sch cost gradient (optimize_start K initial s)
      in (x s', s'))"

text \<open>
  The same loop, with the outcome of every call to \<open>step\<close> recorded in order: the
  returned \<open>bool\<close> and the optimizer after the call. The source keeps no such log; it
  is what the statements about the number of calls and the visited points speak of,
  and \<open>optimize_loop_trace\<close> below ties it to \<open>optimize_loop\<close>.
\<close>

function optimize_trace ::
  "('p, 'v::{uminus,plus,minus}, 'r::{inverse,uminus,zero,ord}, 'g, 'l) Collaborators \<Rightarrow> Scheme \<Rightarrow>
   ('p \<Rightarrow> 'r) \<Rightarrow> ('p \<Rightarrow> 'v) \<Rightarrow> ('p, 'v, 'r, 'g, 'l) ConjugateGradient \<Rightarrow>
   (bool \<times> ('p, 'v, 'r, 'g, 'l) ConjugateGradient) list" where
  "optimize_trace K sch cost gradient s =
     (if n s < maxSteps s then
        (case step K sch cost gradient s of
           (ok, s') \<Rightarrow>
             (ok, s') # (if \<not> ok then [] else optimize_trace K sch cost gradient (s'\<lparr>n := n s' + 1\<rparr>)))
      else [])"
  by pat_completeness auto
termination
proof (relation "measure (\<lambda>(K, sch, cost, gradient, s). unat (maxSteps s - n s))")
  show "wf (measure (\<lambda>(K, sch, cost, gradient, s). unat (maxSteps s - n s)))"
    by simp
next
  fix K :: "('p, 'v::{uminus,plus,minus}, 'r::{inverse,uminus,zero,ord}, 'g, 'l) Collaborators"
    and sch cost gradient
    and s :: "('p, 'v, 'r, 'g, 'l) ConjugateGradient"
    and ok s'
  assume "n s < maxSteps s" and "(ok, s') = step K sch cost gradient s" and "\<not> \<not> ok"
  then show "((K, sch, cost, gradient, s'\<lparr>n := n s' + 1\<rparr>), K, sch, cost, gradient, s)
      \<in> measure (\<lambda>(K, sch, cost, gradient, s). unat (maxSteps s - n s))"
    by (simp add: step_decreases)
qed

declare optimize_trace.simps [simp del]

text \<open>The points \<open>x\<close> after each call to \<open>step\<close> of a run of \<open>optimize\<close>, with the call's result.\<close>

definition visited ::
  "('p, 'v::{uminus,plus,minus}, 'r::{inverse,uminus,zero,ord}, 'g, 'l) Collaborators \<Rightarrow> Scheme \<Rightarrow>
   'p \<Rightarrow> ('p \<Rightarrow> 'r) \<Rightarrow> ('p \<Rightarrow> 'v) \<Rightarrow> ('p, 'v, 'r, 'g, 'l) ConjugateGradient \<Rightarrow>
   (bool \<times> 'p) list" where
  "visited K sch initial cost gradient s =
     map (\<lambda>(ok, s'). (ok, x s')) (optimize_trace K sch cost gradient (optimize_start K initial s))"

subsection \<open>The driver as the specification words it\<close>

text \<open>
  The specification's sentence for the loop of \<open>optimize\<close>: "iterates \<open>step\<close> while
  \<open>n < maxSteps\<close> and \<open>step\<close> succeeds". Read on its own, it is a bounded iteration: at
  most \<open>k\<close> more calls, each after a successful one, counting \<open>n\<close> up after every
  success, and stopping at the first call that fails. \<open>iterate_steps k\<close> is that
  reading; it is compared with \<open>optimize_loop\<close>, which is the source's loop.
\<close>

primrec iterate_steps ::
  "nat \<Rightarrow> ('p, 'v::{uminus,plus,minus}, 'r::{inverse,uminus,zero,ord}, 'g, 'l) Collaborators \<Rightarrow>
   Scheme \<Rightarrow> ('p \<Rightarrow> 'r) \<Rightarrow> ('p \<Rightarrow> 'v) \<Rightarrow> ('p, 'v, 'r, 'g, 'l) ConjugateGradient \<Rightarrow>
   ('p, 'v, 'r, 'g, 'l) ConjugateGradient" where
  "iterate_steps 0 K sch cost gradient s = s"
| "iterate_steps (Suc k) K sch cost gradient s =
     (case step K sch cost gradient s of
        (ok, s') \<Rightarrow> if ok then iterate_steps k K sch cost gradient (s'\<lparr>n := n s' + 1\<rparr>) else s')"

subsection \<open>A concrete geometry: the Euclidean plane\<close>

text \<open>
  The instance on which the theorems below are exercised: points and tangent vectors
  are pairs of reals, a geodesic is the straight line \<open>p + t v\<close>, parallel transport is
  the identity and the metric is the dot product at every point. The line search takes
  one secant step on the derivative (exact for a quadratic cost), returns \<open>0\<close> when the
  derivative at \<open>0\<close> is not negative, and keeps the step it returned in its \<open>alpha\<close>.
\<close>

datatype vec2 = Vec2 real real

instantiation vec2 :: "{uminus,plus,minus}"
begin

fun uminus_vec2 :: "vec2 \<Rightarrow> vec2" where
  "uminus_vec2 (Vec2 a b) = Vec2 (- a) (- b)"

fun plus_vec2 :: "vec2 \<Rightarrow> vec2 \<Rightarrow> vec2" where
  "plus_vec2 (Vec2 a b) (Vec2 c d) = Vec2 (a + c) (b + d)"

fun minus_vec2 :: "vec2 \<Rightarrow> vec2 \<Rightarrow> vec2" where
  "minus_vec2 (Vec2 a b) (Vec2 c d) = Vec2 (a - c) (b - d)"

instance ..

end

fun scale2 :: "vec2 \<Rightarrow> real \<Rightarrow> vec2" where
  "scale2 (Vec2 a b) r = Vec2 (a * r) (b * r)"

fun dot2 :: "vec2 \<Rightarrow> vec2 \<Rightarrow> real" where
  "dot2 (Vec2 a b) (Vec2 c d) = a * c + b * d"

definition euclid :: "vec2 \<Rightarrow> (vec2, real) InnerProduct" where
  "euclid p = \<lparr>inner = dot2, norm2 = (\<lambda>v. dot2 v v)\<rparr>"

definition secant_search :: "real \<Rightarrow> (real \<Rightarrow> real) \<Rightarrow> (real \<Rightarrow> real) \<Rightarrow> real \<times> real" where
  "secant_search l f df =
     (let a = (if df 0 < 0 \<and> df 0 < df 1 then df 0 / (df 0 - df 1) else 0) in (a, a))"

definition plane :: "(vec2, vec2, real, vec2 \<times> vec2, real) Collaborators" where
  "plane =
     \<lparr>geo_set = (\<lambda>g p v. (p, v)),
      geo_at = (\<lambda>g t. fst g + scale2 (snd g) t),
      parallelTranslate = (\<lambda>g w t. w),
      geo_velocity = snd,
      ls_search = secant_search,
      ls_reset = (\<lambda>l. 0),
      ls_alpha = (\<lambda>l. l),
      scale = scale2\<rparr>"

text \<open>The cost \<open>a\<^sup>2 + 2 b\<^sup>2\<close> and its gradient.\<close>

fun bowl :: "vec2 \<Rightarrow> real" where
  "bowl (Vec2 a b) = a * a + 2 * (b * b)"

fun bowl_gradient :: "vec2 \<Rightarrow> vec2" where
  "bowl_gradient (Vec2 a b) = Vec2 (2 * a) (4 * b)"

text \<open>
  A cost with no minimum, \<open>- a\<close>, and the plane with a line search that returns
  \<open>alpha = 1\<close> whatever it is given.
\<close>

fun slope :: "vec2 \<Rightarrow> real" where
  "slope (Vec2 a b) = - a"

fun slope_gradient :: "vec2 \<Rightarrow> vec2" where
  "slope_gradient (Vec2 a b) = Vec2 (- 1) 0"

definition unit_step :: "(vec2, vec2, real, vec2 \<times> vec2, real) Collaborators" where
  "unit_step = plane\<lparr>ls_search := (\<lambda>l f df. (1, 1))\<rparr>"

text \<open>An optimizer as constructed, with \<open>n = 0\<close>, \<open>maxSteps = 1000\<close> and zero vectors.\<close>

definition cg_new :: "(vec2, vec2, real, vec2 \<times> vec2, real) ConjugateGradient" where
  "cg_new =
     \<lparr>metric = euclid, geodesic = (Vec2 0 0, Vec2 0 0), lineSearch = 0,
      n = 0, maxSteps = 1000,
      x = Vec2 0 0, lastX = Vec2 0 0,
      grad = Vec2 0 0, lastGrad = Vec2 0 0, velocity = Vec2 0 0, ptLastVel = Vec2 0 0\<rparr>"

text \<open>
  The run of \<open>optimize\<close> from \<open>(2, 1)\<close> on this instance: \<open>cg_a\<close> is the optimizer when
  the first step is called, \<open>cg_b\<close> after the first step, \<open>cg_c\<close> after the second and
  \<open>cg_d\<close> after the third, which fails at the minimum \<open>(0, 0)\<close>.
\<close>

definition cg_a :: "(vec2, vec2, real, vec2 \<times> vec2, real) ConjugateGradient" where
  "cg_a = cg_new\<lparr>x := Vec2 2 1\<rparr>"

definition cg_b :: "(vec2, vec2, real, vec2 \<times> vec2, real) ConjugateGradient" where
  "cg_b =
     \<lparr>metric = euclid, geodesic = (Vec2 2 1, Vec2 (- 4) (- 4)), lineSearch = 1 / 3,
      n = 0, maxSteps = 1000,
      x = Vec2 (2 / 3) (- (1 / 3)), lastX = Vec2 2 1,
      grad = Vec2 4 4, lastGrad = Vec2 0 0, velocity = Vec2 (- 4) (- 4), ptLastVel = Vec2 0 0\<rparr>"

definition cg_c :: "(vec2, vec2, real, vec2 \<times> vec2, real) ConjugateGradient" where
  "cg_c =
     \<lparr>metric = euclid, geodesic = (Vec2 (2 / 3) (- (1 / 3)), Vec2 (- (16 / 9)) (8 / 9)),
      lineSearch = 3 / 8, n = 1, maxSteps = 1000,
      x = Vec2 0 0, lastX = Vec2 (2 / 3) (- (1 / 3)),
      grad = Vec2 (4 / 3) (- (4 / 3)), lastGrad = Vec2 4 4,
      velocity = Vec2 (- (16 / 9)) (8 / 9), ptLastVel = Vec2 (- 4) (- 4)\<rparr>"

definition cg_d :: "(vec2, vec2, real, vec2 \<times> vec2, real) ConjugateGradient" where
  "cg_d =
     \<lparr>metric = euclid, geodesic = (Vec2 0 0, Vec2 0 0), lineSearch = 0,
      n = 2, maxSteps = 1000,
      x = Vec2 0 0, lastX = Vec2 (2 / 3) (- (1 / 3)),
      grad = Vec2 0 0, lastGrad = Vec2 (4 / 3) (- (4 / 3)),
      velocity = Vec2 0 0, ptLastVel = Vec2 (- (16 / 9)) (8 / 9)\<rparr>"

section \<open>Properties\<close>

subsection \<open>Auxiliary facts\<close>

text \<open>The fields a scheme formula reads.\<close>

lemma modifier_reads:
  assumes "metric s = metric t" "x s = x t" "lastX s = lastX t" "grad s = grad t"
    "lastGrad s = lastGrad t" "ptLastVel s = ptLastVel t" "geodesic s = geodesic t"
    "lineSearch s = lineSearch t"
  shows "modifier K sch s = modifier K sch t"
  using assms by (cases sch) simp_all

text \<open>What a call to \<open>step\<close> leaves in \<open>grad\<close>, \<open>ptLastVel\<close> and \<open>velocity\<close>.\<close>

lemma step_grad:
  assumes "step K sch cost gradient s = (ok, s')"
  shows "grad s' = gradient (x s)" and "lastGrad s' = grad s"
  using assms by (auto simp: step_def Let_def split: prod.splits if_splits)

lemma step_first_velocity:
  assumes "step K sch cost gradient s = (ok, s')" and "n s = 0"
  shows "velocity s' = - gradient (x s)" and "ptLastVel s' = ptLastVel s"
  using assms by (auto simp: step_def Let_def split: prod.splits if_splits)

lemma step_later_velocity:
  assumes "step K sch cost gradient s = (ok, s')" and "0 < n s"
  defines "w \<equiv> parallelTranslate K (geodesic s) (geo_velocity K (geodesic s)) (ls_alpha K (lineSearch s))"
  shows "ptLastVel s' = w"
    and "velocity s' =
      - gradient (x s) +
      scale K w (modifier K sch (s\<lparr>lastGrad := grad s, grad := gradient (x s), ptLastVel := w\<rparr>))"
proof -
  have beta: "modifier K sch
        (s\<lparr>lastGrad := grad s, grad := gradient (x s), velocity := - gradient (x s), ptLastVel := w\<rparr>) =
      modifier K sch (s\<lparr>lastGrad := grad s, grad := gradient (x s), ptLastVel := w\<rparr>)"
    by (rule modifier_reads) simp_all
  show "ptLastVel s' = w"
    using assms(1,2) by (auto simp: w_def step_def Let_def split: prod.splits if_splits)
  have "velocity s' =
      - gradient (x s) +
      scale K w (modifier K sch
        (s\<lparr>lastGrad := grad s, grad := gradient (x s), velocity := - gradient (x s), ptLastVel := w\<rparr>))"
    using assms(1,2) by (auto simp: w_def step_def Let_def split: prod.splits if_splits)
  with beta show "velocity s' =
      - gradient (x s) +
      scale K w (modifier K sch (s\<lparr>lastGrad := grad s, grad := gradient (x s), ptLastVel := w\<rparr>))"
    by simp
qed

text \<open>What a successful call to \<open>step\<close> leaves for the next call.\<close>

lemma step_succeeded:
  assumes "step K sch cost gradient s = (True, s')"
  shows "grad s' = gradient (x s)" and "lastX s' = x s"
    and "geodesic s' = geo_set K (geodesic s) (x s) (velocity s')"
    and "lineSearch s' = snd (search_along K (metric s) cost gradient (geodesic s') (lineSearch s))"
    and "x s' = geo_at K (geodesic s')
           (fst (search_along K (metric s) cost gradient (geodesic s') (lineSearch s)))"
  using assms by (auto simp: step_def Let_def split: prod.splits if_splits)

text \<open>The three ways one test of the loop condition goes.\<close>

lemma optimize_loop_exhausted:
  "\<not> n s < maxSteps s \<Longrightarrow> optimize_loop K sch cost gradient s = s"
  by (simp add: optimize_loop.simps)

lemma optimize_loop_failed:
  "n s < maxSteps s \<Longrightarrow> step K sch cost gradient s = (False, s') \<Longrightarrow>
   optimize_loop K sch cost gradient s = s'"
  by (subst optimize_loop.simps) simp

lemma optimize_loop_succeeded:
  "n s < maxSteps s \<Longrightarrow> step K sch cost gradient s = (True, s') \<Longrightarrow>
   optimize_loop K sch cost gradient s = optimize_loop K sch cost gradient (s'\<lparr>n := n s' + 1\<rparr>)"
  by (subst optimize_loop.simps) simp

lemma optimize_trace_exhausted:
  "\<not> n s < maxSteps s \<Longrightarrow> optimize_trace K sch cost gradient s = []"
  by (simp add: optimize_trace.simps)

lemma optimize_trace_failed:
  "n s < maxSteps s \<Longrightarrow> step K sch cost gradient s = (False, s') \<Longrightarrow>
   optimize_trace K sch cost gradient s = [(False, s')]"
  by (subst optimize_trace.simps) simp

lemma optimize_trace_succeeded:
  "n s < maxSteps s \<Longrightarrow> step K sch cost gradient s = (True, s') \<Longrightarrow>
   optimize_trace K sch cost gradient s =
     (True, s') # optimize_trace K sch cost gradient (s'\<lparr>n := n s' + 1\<rparr>)"
  by (subst optimize_trace.simps) simp

text \<open>Counting up to \<open>maxSteps\<close> in a \<open>uint32_t\<close> does not wrap.\<close>

lemma word_count_up:
  fixes a b :: "32 word"
  assumes "a < b"
  shows "a + 1 \<le> b" and "unat (b - a) = Suc (unat (b - (a + 1)))"
  using assms by unat_arith+

lemma step_keeps_counters:
  assumes "step K sch cost gradient s = (ok, s')"
  shows "n s' = n s" and "maxSteps s' = maxSteps s" and "metric s' = metric s"
  using step_n [of K sch cost gradient s] step_maxSteps [of K sch cost gradient s]
    step_metric [of K sch cost gradient s] assms
  by simp_all

text \<open>The log is the log of \<open>optimize_loop\<close>: the loop ends in the optimizer of the last entry.\<close>

lemma optimize_loop_trace:
  "optimize_loop K sch cost gradient s =
     (case optimize_trace K sch cost gradient s of
        [] \<Rightarrow> s
      | r # rs \<Rightarrow>
          (let (ok, s') = last (r # rs) in if ok then s'\<lparr>n := n s' + 1\<rparr> else s'))"
proof (induction K sch cost gradient s rule: optimize_trace.induct)
  case (1 K sch cost gradient s)
  show ?case
  proof (cases "n s < maxSteps s")
    case False
    then show ?thesis
      by (simp add: optimize_loop_exhausted optimize_trace_exhausted)
  next
    case lt: True
    obtain ok s' where st: "step K sch cost gradient s = (ok, s')"
      by (cases "step K sch cost gradient s")
    show ?thesis
    proof (cases ok)
      case False
      with lt st show ?thesis
        by (simp add: optimize_loop_failed optimize_trace_failed)
    next
      case True
      with "1.IH" [OF lt st [symmetric]]
      have IH: "optimize_loop K sch cost gradient (s'\<lparr>n := n s' + 1\<rparr>) =
          (case optimize_trace K sch cost gradient (s'\<lparr>n := n s' + 1\<rparr>) of
             [] \<Rightarrow> s'\<lparr>n := n s' + 1\<rparr>
           | r # rs \<Rightarrow>
               (let (ok, s'') = last (r # rs) in if ok then s''\<lparr>n := n s'' + 1\<rparr> else s''))"
        by simp
      from lt st True show ?thesis
        by (simp add: optimize_loop_succeeded optimize_trace_succeeded IH split: list.splits)
    qed
  qed
qed

text \<open>Only the last call of a run can have failed.\<close>

lemma optimize_trace_butlast:
  "r \<in> set (butlast (optimize_trace K sch cost gradient s)) \<Longrightarrow> fst r"
proof (induction K sch cost gradient s rule: optimize_trace.induct)
  case (1 K sch cost gradient s)
  show ?case
  proof (cases "n s < maxSteps s")
    case False
    with "1.prems" show ?thesis
      by (simp add: optimize_trace_exhausted)
  next
    case lt: True
    obtain ok s' where st: "step K sch cost gradient s = (ok, s')"
      by (cases "step K sch cost gradient s")
    show ?thesis
    proof (cases ok)
      case False
      with lt st "1.prems" show ?thesis
        by (simp add: optimize_trace_failed)
    next
      case True
      with "1.IH" [OF lt st [symmetric]]
      have IH: "r \<in> set (butlast (optimize_trace K sch cost gradient (s'\<lparr>n := n s' + 1\<rparr>))) \<Longrightarrow> fst r"
        by simp
      from lt st True "1.prems" IH show ?thesis
        by (auto simp: optimize_trace_succeeded split: if_splits)
    qed
  qed
qed

text \<open>The number of calls: never more than the count left, and exactly that when no call failed.\<close>

lemma optimize_trace_length:
  "n s \<le> maxSteps s \<Longrightarrow>
   length (optimize_trace K sch cost gradient s) \<le> unat (maxSteps s - n s) \<and>
   (list_all fst (optimize_trace K sch cost gradient s) \<longrightarrow>
      length (optimize_trace K sch cost gradient s) = unat (maxSteps s - n s) \<and>
      n (optimize_loop K sch cost gradient s) = maxSteps s)"
proof (induction K sch cost gradient s rule: optimize_trace.induct)
  case (1 K sch cost gradient s)
  show ?case
  proof (cases "n s < maxSteps s")
    case False
    with "1.prems" have "n s = maxSteps s"
      by simp
    with False show ?thesis
      by (simp add: optimize_trace_exhausted optimize_loop_exhausted)
  next
    case lt: True
    obtain ok s' where st: "step K sch cost gradient s = (ok, s')"
      by (cases "step K sch cost gradient s")
    note keep = step_keeps_counters [OF st]
    note up = word_count_up [OF lt]
    show ?thesis
    proof (cases ok)
      case False
      with lt st up show ?thesis
        by (simp add: optimize_trace_failed)
    next
      case True
      have "n (s'\<lparr>n := n s' + 1\<rparr>) \<le> maxSteps (s'\<lparr>n := n s' + 1\<rparr>)"
        using up(1) keep by simp
      with "1.IH" [OF lt st [symmetric]] True
      have IH: "length (optimize_trace K sch cost gradient (s'\<lparr>n := n s' + 1\<rparr>))
            \<le> unat (maxSteps s - (n s + 1)) \<and>
          (list_all fst (optimize_trace K sch cost gradient (s'\<lparr>n := n s' + 1\<rparr>)) \<longrightarrow>
             length (optimize_trace K sch cost gradient (s'\<lparr>n := n s' + 1\<rparr>))
               = unat (maxSteps s - (n s + 1)) \<and>
             n (optimize_loop K sch cost gradient (s'\<lparr>n := n s' + 1\<rparr>)) = maxSteps s)"
        using keep by simp
      from lt st True IH up(2) show ?thesis
        by (simp add: optimize_trace_succeeded optimize_loop_succeeded)
    qed
  qed
qed

text \<open>
  The log is a chain of calls: its first entry is the outcome of \<open>step\<close> on the optimizer
  the loop starts from, and every further entry is the outcome of \<open>step\<close> on the
  optimizer the entry before it left, with \<open>n\<close> counted up, after that entry succeeded.
\<close>

lemma optimize_trace_head:
  assumes "optimize_trace K sch cost gradient s \<noteq> []"
  shows "n s < maxSteps s"
    and "optimize_trace K sch cost gradient s ! 0 = step K sch cost gradient s"
proof -
  show lt: "n s < maxSteps s"
    using assms optimize_trace_exhausted by blast
  obtain ok s' where st: "step K sch cost gradient s = (ok, s')"
    by (cases "step K sch cost gradient s")
  show "optimize_trace K sch cost gradient s ! 0 = step K sch cost gradient s"
    using lt st by (cases ok) (simp_all add: optimize_trace_failed optimize_trace_succeeded)
qed

lemma optimize_trace_chain:
  "Suc i < length (optimize_trace K sch cost gradient s) \<Longrightarrow>
   fst (optimize_trace K sch cost gradient s ! i) \<and>
   optimize_trace K sch cost gradient s ! Suc i =
     step K sch cost gradient
       ((snd (optimize_trace K sch cost gradient s ! i))
          \<lparr>n := n (snd (optimize_trace K sch cost gradient s ! i)) + 1\<rparr>)"
proof (induction K sch cost gradient s arbitrary: i rule: optimize_trace.induct)
  case (1 K sch cost gradient s)
  show ?case
  proof (cases "n s < maxSteps s")
    case False
    with "1.prems" show ?thesis
      by (simp add: optimize_trace_exhausted)
  next
    case lt: True
    obtain ok s' where st: "step K sch cost gradient s = (ok, s')"
      by (cases "step K sch cost gradient s")
    show ?thesis
    proof (cases ok)
      case False
      with lt st "1.prems" show ?thesis
        by (simp add: optimize_trace_failed)
    next
      case True
      let ?u = "s'\<lparr>n := n s' + 1\<rparr>"
      from lt st True have unfold: "optimize_trace K sch cost gradient s =
          (True, s') # optimize_trace K sch cost gradient ?u"
        by (simp add: optimize_trace_succeeded)
      show ?thesis
      proof (cases i)
        case 0
        with "1.prems" unfold have "optimize_trace K sch cost gradient ?u \<noteq> []"
          by auto
        from optimize_trace_head(2) [OF this] 0 unfold show ?thesis
          by simp
      next
        case (Suc j)
        with "1.prems" unfold have "Suc j < length (optimize_trace K sch cost gradient ?u)"
          by simp
        from "1.IH" [OF lt st [symmetric] _ this] True Suc unfold show ?thesis
          by simp
      qed
    qed
  qed
qed

text \<open>The loop counts \<open>n\<close> up once for every call that succeeded.\<close>

lemma optimize_loop_counts:
  "n (optimize_loop K sch cost gradient s) =
     n s + of_nat (length (filter fst (optimize_trace K sch cost gradient s)))"
proof (induction K sch cost gradient s rule: optimize_trace.induct)
  case (1 K sch cost gradient s)
  show ?case
  proof (cases "n s < maxSteps s")
    case False
    then show ?thesis
      by (simp add: optimize_loop_exhausted optimize_trace_exhausted)
  next
    case lt: True
    obtain ok s' where st: "step K sch cost gradient s = (ok, s')"
      by (cases "step K sch cost gradient s")
    note keep = step_keeps_counters [OF st]
    show ?thesis
    proof (cases ok)
      case False
      with lt st keep show ?thesis
        by (simp add: optimize_loop_failed optimize_trace_failed)
    next
      case True
      with "1.IH" [OF lt st [symmetric]] lt st keep show ?thesis
        by (simp add: optimize_loop_succeeded optimize_trace_succeeded)
    qed
  qed
qed

text \<open>A line search that never returns an \<open>alpha \<le> 0\<close> makes every step succeed.\<close>

lemma step_succeeds:
  assumes "\<forall>l f df. \<not> fst (ls_search K l f df) \<le> 0"
  shows "fst (step K sch cost gradient s)"
  using assms by (simp add: step_def search_along_def Let_def case_prod_beta)

lemma optimize_trace_all_succeed:
  "\<forall>l f df. \<not> fst (ls_search K l f df) \<le> 0 \<Longrightarrow>
   list_all fst (optimize_trace K sch cost gradient s)"
proof (induction K sch cost gradient s rule: optimize_trace.induct)
  case (1 K sch cost gradient s)
  show ?case
  proof (cases "n s < maxSteps s")
    case False
    then show ?thesis
      by (simp add: optimize_trace_exhausted)
  next
    case lt: True
    obtain ok s' where st: "step K sch cost gradient s = (ok, s')"
      by (cases "step K sch cost gradient s")
    from st step_succeeds [OF "1.prems", of sch cost gradient s] have ok
      by simp
    with "1.IH" [OF lt st [symmetric]] "1.prems" lt st show ?thesis
      by (simp add: optimize_trace_succeeded)
  qed
qed

text \<open>The source's loop and the specification's bounded iteration agree.\<close>

lemma optimize_loop_iterate:
  "n s \<le> maxSteps s \<Longrightarrow>
   optimize_loop K sch cost gradient s =
     iterate_steps (unat (maxSteps s - n s)) K sch cost gradient s"
proof (induction K sch cost gradient s rule: optimize_loop.induct)
  case (1 K sch cost gradient s)
  show ?case
  proof (cases "n s < maxSteps s")
    case False
    with "1.prems" have "n s = maxSteps s"
      by simp
    with False show ?thesis
      by (simp add: optimize_loop_exhausted)
  next
    case lt: True
    obtain ok s' where st: "step K sch cost gradient s = (ok, s')"
      by (cases "step K sch cost gradient s")
    note keep = step_keeps_counters [OF st]
    note up = word_count_up [OF lt]
    show ?thesis
    proof (cases ok)
      case False
      with lt st up(2) show ?thesis
        by (simp add: optimize_loop_failed)
    next
      case True
      have "n (s'\<lparr>n := n s' + 1\<rparr>) \<le> maxSteps (s'\<lparr>n := n s' + 1\<rparr>)"
        using up(1) keep by simp
      with "1.IH" [OF lt st [symmetric]] True
      have "optimize_loop K sch cost gradient (s'\<lparr>n := n s' + 1\<rparr>) =
          iterate_steps (unat (maxSteps s - (n s + 1))) K sch cost gradient (s'\<lparr>n := n s' + 1\<rparr>)"
        using keep by simp
      with lt st True up(2) show ?thesis
        by (simp add: optimize_loop_succeeded)
    qed
  qed
qed

text \<open>\<open>optimize_loop\<close> assigns neither \<open>maxSteps\<close> nor the metric.\<close>

lemma optimize_loop_keeps:
  "maxSteps (optimize_loop K sch cost gradient s) = maxSteps s \<and>
   metric (optimize_loop K sch cost gradient s) = metric s"
proof (induction K sch cost gradient s rule: optimize_loop.induct)
  case (1 K sch cost gradient s)
  show ?case
  proof (cases "n s < maxSteps s")
    case False
    then show ?thesis
      by (simp add: optimize_loop_exhausted)
  next
    case lt: True
    obtain ok s' where st: "step K sch cost gradient s = (ok, s')"
      by (cases "step K sch cost gradient s")
    note keep = step_keeps_counters [OF st]
    show ?thesis
    proof (cases ok)
      case False
      with lt st keep show ?thesis
        by (simp add: optimize_loop_failed)
    next
      case True
      with "1.IH" [OF lt st [symmetric]] lt st keep show ?thesis
        by (simp add: optimize_loop_succeeded)
    qed
  qed
qed

text \<open>
  What a run inherits from the run before it. When \<open>set\<close> re-binds the geodesic whatever
  it was bound to, the first step (\<open>n = 0\<close>) is the same whatever the earlier run left
  in the geodesic, \<open>lastX\<close>, \<open>grad\<close>, \<open>lastGrad\<close>, \<open>velocity\<close> and \<open>ptLastVel\<close>, except that it
  leaves the inherited \<open>grad\<close> in \<open>lastGrad\<close>, keeps the inherited \<open>ptLastVel\<close> and, when it
  fails, the inherited \<open>lastX\<close>. A later step (\<open>n > 0\<close>) overwrites \<open>lastGrad\<close> and
  \<open>ptLastVel\<close> before it reads them.
\<close>

lemma step_first_inherited:
  assumes "\<forall>c c' p v. geo_set K c p v = geo_set K c' p v" and "n s = 0"
  shows "step K sch cost gradient
      (s\<lparr>geodesic := c, lastX := p, grad := h, lastGrad := g, velocity := v, ptLastVel := w\<rparr>) =
    (let (ok, s') = step K sch cost gradient s
     in (ok, s'\<lparr>lastGrad := h, ptLastVel := w, lastX := (if ok then lastX s' else p)\<rparr>))"
proof -
  from assms(1) have rebind: "\<And>q u. geo_set K c q u = geo_set K (geodesic s) q u"
    by blast
  from assms(2) show ?thesis
    by (auto simp: step_def search_along_def Let_def rebind split: prod.splits if_splits)
qed

lemma step_later_inherited:
  assumes "0 < n s"
  shows "step K sch cost gradient (s\<lparr>lastGrad := g, ptLastVel := w\<rparr>) = step K sch cost gradient s"
  using assms
  by (cases s) (auto simp: step_def search_along_def Let_def split: prod.splits if_splits)

text \<open>The rest of a run is determined by \<open>n\<close>, \<open>maxSteps\<close> and the outcome of the next step.\<close>

lemma optimize_trace_same_step:
  assumes "n t = n s" "maxSteps t = maxSteps s"
    and "step K sch cost gradient t = step K sch cost gradient s"
  shows "optimize_trace K sch cost gradient t = optimize_trace K sch cost gradient s"
  using assms
  by (subst optimize_trace.simps, subst (2) optimize_trace.simps) simp

lemma optimize_loop_same_step:
  assumes "n t = n s" "maxSteps t = maxSteps s" "x t = x s"
    and "step K sch cost gradient t = step K sch cost gradient s"
  shows "x (optimize_loop K sch cost gradient t) = x (optimize_loop K sch cost gradient s)"
  using assms
  by (subst optimize_loop.simps, subst (2) optimize_loop.simps) simp

text \<open>
  So a run from \<open>n = 0\<close> visits the same points and ends at the same point whatever it
  inherits in those six fields.
\<close>

lemma optimize_loop_inherited:
  assumes "\<forall>c c' p v. geo_set K c p v = geo_set K c' p v" and "n s = 0"
  shows "map (\<lambda>(ok, s'). (ok, x s'))
        (optimize_trace K sch cost gradient
          (s\<lparr>geodesic := c, lastX := p, grad := h, lastGrad := g, velocity := v, ptLastVel := w\<rparr>)) =
      map (\<lambda>(ok, s'). (ok, x s')) (optimize_trace K sch cost gradient s) \<and>
    x (optimize_loop K sch cost gradient
        (s\<lparr>geodesic := c, lastX := p, grad := h, lastGrad := g, velocity := v, ptLastVel := w\<rparr>)) =
      x (optimize_loop K sch cost gradient s)"
proof -
  define t where
    "t = s\<lparr>geodesic := c, lastX := p, grad := h, lastGrad := g, velocity := v, ptLastVel := w\<rparr>"
  have same: "n t = n s" "maxSteps t = maxSteps s" "x t = x s"
    by (simp_all add: t_def)
  obtain ok s' where st: "step K sch cost gradient s = (ok, s')"
    by (cases "step K sch cost gradient s")
  have first: "step K sch cost gradient t =
      (ok, s'\<lparr>lastGrad := h, ptLastVel := w, lastX := (if ok then lastX s' else p)\<rparr>)"
    unfolding t_def
    using step_first_inherited [OF assms(1,2), where sch = sch and cost = cost and
        gradient = gradient and c = c and p = p and h = h and g = g and v = v and w = w] st
    by simp
  consider (exhausted) "\<not> n s < maxSteps s"
    | (failed) "n s < maxSteps s" "\<not> ok"
    | (succeeded) "n s < maxSteps s" ok
    by blast
  then have "map (\<lambda>(ok, s'). (ok, x s')) (optimize_trace K sch cost gradient t) =
      map (\<lambda>(ok, s'). (ok, x s')) (optimize_trace K sch cost gradient s) \<and>
    x (optimize_loop K sch cost gradient t) = x (optimize_loop K sch cost gradient s)"
  proof cases
    case exhausted
    with same show ?thesis
      by (simp add: optimize_trace_exhausted optimize_loop_exhausted)
  next
    case failed
    from failed same st first show ?thesis
      by (simp add: optimize_trace_failed optimize_loop_failed)
  next
    case succeeded
    define u where "u = s'\<lparr>n := n s' + 1\<rparr>"
    define t' where "t' = s'\<lparr>lastGrad := h, ptLastVel := w\<rparr>"
    from succeeded first have first': "step K sch cost gradient t = (True, t')"
      by (simp add: t'_def)
    from succeeded st have st': "step K sch cost gradient s = (True, s')"
      by simp
    have tu: "t'\<lparr>n := n t' + 1\<rparr> = u\<lparr>lastGrad := h, ptLastVel := w\<rparr>"
      by (simp add: u_def t'_def)
    have "n s' = n s"
      using st by (rule step_keeps_counters)
    with assms(2) have later: "0 < n u"
      by (simp add: u_def)
    have next_step: "step K sch cost gradient (u\<lparr>lastGrad := h, ptLastVel := w\<rparr>) =
        step K sch cost gradient u"
      using later by (rule step_later_inherited)
    have rest: "optimize_trace K sch cost gradient (u\<lparr>lastGrad := h, ptLastVel := w\<rparr>) =
        optimize_trace K sch cost gradient u"
      by (rule optimize_trace_same_step) (simp_all add: next_step)
    have rest_loop: "x (optimize_loop K sch cost gradient (u\<lparr>lastGrad := h, ptLastVel := w\<rparr>)) =
        x (optimize_loop K sch cost gradient u)"
      by (rule optimize_loop_same_step) (simp_all add: next_step)
    from succeeded(1) same have lt: "n t < maxSteps t"
      by simp
    have "optimize_trace K sch cost gradient t = (True, t') # optimize_trace K sch cost gradient u"
      using optimize_trace_succeeded [OF lt first'] tu rest by simp
    moreover have "optimize_trace K sch cost gradient s = (True, s') # optimize_trace K sch cost gradient u"
      using optimize_trace_succeeded [OF succeeded(1) st'] by (simp add: u_def)
    moreover have "x (optimize_loop K sch cost gradient t) = x (optimize_loop K sch cost gradient u)"
      using optimize_loop_succeeded [OF lt first'] tu rest_loop by simp
    moreover have "optimize_loop K sch cost gradient s = optimize_loop K sch cost gradient u"
      using optimize_loop_succeeded [OF succeeded(1) st'] by (simp add: u_def)
    ultimately show ?thesis
      by (simp add: t'_def)
  qed
  then show ?thesis
    by (simp add: t_def)
qed

text \<open>A failed call leaves the position; the loop returns the point of its last successful call.\<close>

lemma step_failed_position:
  assumes "step K sch cost gradient s = (False, s')"
  shows "x s' = x s" and "lastX s' = lastX s"
  using assms by (auto simp: step_def Let_def split: prod.splits if_splits)

lemma optimize_loop_last_success:
  "x (optimize_loop K sch cost gradient s) =
     last (x s # map (\<lambda>r. x (snd r)) (filter fst (optimize_trace K sch cost gradient s)))"
proof (induction K sch cost gradient s rule: optimize_trace.induct)
  case (1 K sch cost gradient s)
  show ?case
  proof (cases "n s < maxSteps s")
    case False
    then show ?thesis
      by (simp add: optimize_loop_exhausted optimize_trace_exhausted)
  next
    case lt: True
    obtain ok s' where st: "step K sch cost gradient s = (ok, s')"
      by (cases "step K sch cost gradient s")
    show ?thesis
    proof (cases ok)
      case False
      with st have "step K sch cost gradient s = (False, s')"
        by simp
      with lt step_failed_position(1) [OF this] show ?thesis
        by (simp add: optimize_loop_failed optimize_trace_failed)
    next
      case True
      with "1.IH" [OF lt st [symmetric]]
      have "x (optimize_loop K sch cost gradient (s'\<lparr>n := n s' + 1\<rparr>)) =
          last (x s' # map (\<lambda>r. x (snd r))
            (filter fst (optimize_trace K sch cost gradient (s'\<lparr>n := n s' + 1\<rparr>))))"
        by simp
      with lt st True show ?thesis
        by (simp add: optimize_loop_succeeded optimize_trace_succeeded)
    qed
  qed
qed

text \<open>The steps of the run from \<open>(2, 1)\<close>, evaluated.\<close>

lemmas plane_simps =
  step_def search_along_def plane_def euclid_def secant_search_def Let_def

lemma step_cg_a: "step plane sch bowl bowl_gradient cg_a = (True, cg_b)"
  by (simp add: plane_simps cg_a_def cg_b_def cg_new_def)

lemma step_cg_b_HS:
  "step plane HestenesStiefel bowl bowl_gradient (cg_b\<lparr>n := n cg_b + 1\<rparr>) = (True, cg_c)"
  by (simp add: plane_simps cg_b_def cg_c_def)

lemma step_cg_b_FR:
  "step plane FletcherReeves bowl bowl_gradient (cg_b\<lparr>n := n cg_b + 1\<rparr>) = (True, cg_c)"
  by (simp add: plane_simps cg_b_def cg_c_def)

lemma step_cg_c_HS:
  "step plane HestenesStiefel bowl bowl_gradient (cg_c\<lparr>n := n cg_c + 1\<rparr>) = (False, cg_d)"
  by (simp add: plane_simps cg_c_def cg_d_def)

lemma start_cg_new: "optimize_start plane (Vec2 2 1) cg_new = cg_a"
  by (simp add: optimize_start_def plane_def cg_a_def cg_new_def)

lemma trace_cg_a:
  "optimize_trace plane HestenesStiefel bowl bowl_gradient cg_a =
     [(True, cg_b), (True, cg_c), (False, cg_d)]"
proof -
  have "optimize_trace plane HestenesStiefel bowl bowl_gradient (cg_c\<lparr>n := n cg_c + 1\<rparr>) =
      [(False, cg_d)]"
    by (rule optimize_trace_failed [OF _ step_cg_c_HS]) (simp add: cg_c_def)
  moreover have "optimize_trace plane HestenesStiefel bowl bowl_gradient (cg_b\<lparr>n := n cg_b + 1\<rparr>) =
      (True, cg_c) # optimize_trace plane HestenesStiefel bowl bowl_gradient (cg_c\<lparr>n := n cg_c + 1\<rparr>)"
    by (rule optimize_trace_succeeded [OF _ step_cg_b_HS]) (simp add: cg_b_def)
  moreover have "optimize_trace plane HestenesStiefel bowl bowl_gradient cg_a =
      (True, cg_b) # optimize_trace plane HestenesStiefel bowl bowl_gradient (cg_b\<lparr>n := n cg_b + 1\<rparr>)"
    by (rule optimize_trace_succeeded [OF _ step_cg_a]) (simp add: cg_a_def cg_new_def)
  ultimately show ?thesis
    by simp
qed

lemma loop_cg_a: "optimize_loop plane HestenesStiefel bowl bowl_gradient cg_a = cg_d"
  by (simp add: optimize_loop_trace trace_cg_a)

subsection \<open>The search direction\<close>

text \<open>
  C1. After any call to \<open>step\<close> the gradient field holds \<open>gradient(x)\<close> for the point \<open>x\<close>
  at which the call began. When the call began with \<open>n = 0\<close> the velocity it leaves is
  the negated gradient. When it began with \<open>n > 0\<close>, \<open>ptLastVel\<close> is the velocity of the
  geodesic as the previous step bound it, transported along that geodesic by the
  \<open>alpha\<close> the line search holds from the previous step, and the velocity is the negated
  gradient plus \<open>ptLastVel\<close> scaled by the scheme's \<open>modifier\<close>, which is evaluated on the
  optimizer with the new gradient and the new \<open>ptLastVel\<close> in place and the geodesic
  not yet re-bound.
\<close>

theorem step_velocity:
  assumes "step K sch cost gradient s = (ok, s')"
  shows "grad s' = gradient (x s) \<and>
    (n s = 0 \<longrightarrow> velocity s' = - grad s') \<and>
    (0 < n s \<longrightarrow>
       ptLastVel s' =
         parallelTranslate K (geodesic s) (geo_velocity K (geodesic s)) (ls_alpha K (lineSearch s)) \<and>
       velocity s' =
         - grad s' +
         scale K (ptLastVel s')
           (modifier K sch (s\<lparr>lastGrad := grad s, grad := grad s', ptLastVel := ptLastVel s'\<rparr>)))"
proof -
  have g: "grad s' = gradient (x s)"
    using assms by (rule step_grad)
  have first: "velocity s' = - grad s'" if "n s = 0"
    using step_first_velocity(1) [OF assms that] g by simp
  have later: "ptLastVel s' =
        parallelTranslate K (geodesic s) (geo_velocity K (geodesic s)) (ls_alpha K (lineSearch s)) \<and>
      velocity s' =
        - grad s' +
        scale K (ptLastVel s')
          (modifier K sch (s\<lparr>lastGrad := grad s, grad := grad s', ptLastVel := ptLastVel s'\<rparr>))"
    if "0 < n s"
    using step_later_velocity [OF assms that] g by simp
  from g first later show ?thesis
    by blast
qed


theorem step_velocity_witness:
  "step plane HestenesStiefel bowl bowl_gradient cg_a = (True, cg_b) \<and>
   n cg_a = 0 \<and> velocity cg_b = - grad cg_b \<and> grad cg_b = bowl_gradient (x cg_a) \<and>
   step plane HestenesStiefel bowl bowl_gradient (cg_b\<lparr>n := n cg_b + 1\<rparr>) = (True, cg_c) \<and>
   0 < n (cg_b\<lparr>n := n cg_b + 1\<rparr>) \<and>
   ptLastVel cg_c = Vec2 (- 4) (- 4) \<and>
   velocity cg_c = - grad cg_c + scale plane (ptLastVel cg_c) (1 / 9)"
proof -
  have a: "step plane HestenesStiefel bowl bowl_gradient cg_a = (True, cg_b)"
    by (rule step_cg_a)
  have b: "step plane HestenesStiefel bowl bowl_gradient (cg_b\<lparr>n := n cg_b + 1\<rparr>) = (True, cg_c)"
    by (rule step_cg_b_HS)
  have na: "n cg_a = 0"
    by (simp add: cg_a_def cg_new_def)
  have nb: "0 < n (cg_b\<lparr>n := n cg_b + 1\<rparr>)"
    by (simp add: cg_b_def)
  from step_velocity [OF a] na
  have "velocity cg_b = - grad cg_b \<and> grad cg_b = bowl_gradient (x cg_a)"
    by simp
  moreover from step_velocity [OF b] nb
  have "ptLastVel cg_c = Vec2 (- 4) (- 4) \<and>
      velocity cg_c = - grad cg_c + scale plane (ptLastVel cg_c) (1 / 9)"
    by (simp add: cg_b_def cg_c_def plane_def euclid_def)
  ultimately show ?thesis
    using a b na nb by simp
qed

subsection \<open>The scheme formulas in a run\<close>

text \<open>
  C4. Hestenes-Stiefel is the default scheme, and its \<open>modifier\<close> is the inner product
  (under the metric at \<open>x\<close>) of \<open>grad\<close> with \<open>grad - ptlastGrad\<close>, divided by the inner
  product of \<open>ptLastVel\<close> with \<open>grad - ptlastGrad\<close>, where \<open>ptlastGrad\<close> is \<open>lastGrad\<close>
  transported along the geodesic by the stored \<open>alpha\<close>. In a run, where the iteration
  \<open>s1 \<rightarrow> s2\<close> follows the successful iteration \<open>s0 \<rightarrow> s1\<close>: \<open>lastGrad\<close> is then the previous
  gradient \<open>gradient(x)\<close> at the previous point, the geodesic is the one the previous
  step bound, \<open>alpha\<close> is the one its line search left, \<open>grad\<close> is the gradient at the
  current point, and the velocity the iteration leaves is \<open>- grad + ptLastVel * beta\<close>
  with this \<open>beta\<close>.
\<close>

theorem hestenes_stiefel_beta:
  assumes "n s0 < maxSteps s0"
    and "step K HestenesStiefel cost gradient s0 = (True, s1)"
    and "step K HestenesStiefel cost gradient (s1\<lparr>n := n s1 + 1\<rparr>) = (ok, s2)"
  shows "default_Scheme = HestenesStiefel \<and>
    modifier K HestenesStiefel s =
      inner (metric s (x s)) (grad s)
        (grad s - parallelTranslate K (geodesic s) (lastGrad s) (ls_alpha K (lineSearch s))) /
      inner (metric s (x s)) (ptLastVel s)
        (grad s - parallelTranslate K (geodesic s) (lastGrad s) (ls_alpha K (lineSearch s))) \<and>
    (let innerProduct = metric s1 (x s1);
         alpha = ls_alpha K (lineSearch s1);
         ptlastGrad = parallelTranslate K (geodesic s1) (gradient (x s0)) alpha;
         diff = gradient (x s1) - ptlastGrad;
         beta = inner innerProduct (gradient (x s1)) diff / inner innerProduct (ptLastVel s2) diff
     in geodesic s1 = geo_set K (geodesic s0) (x s0) (velocity s1) \<and>
        lineSearch s1 = snd (search_along K (metric s0) cost gradient (geodesic s1) (lineSearch s0)) \<and>
        grad s2 = gradient (x s1) \<and>
        ptLastVel s2 = parallelTranslate K (geodesic s1) (geo_velocity K (geodesic s1)) alpha \<and>
        velocity s2 = - grad s2 + scale K (ptLastVel s2) beta)"
proof -
  note prev = step_succeeded [OF assms(2)]
  have "n s1 = n s0"
    using assms(2) by (rule step_keeps_counters)
  with assms(1) have later: "0 < n (s1\<lparr>n := n s1 + 1\<rparr>)"
    by (simp add: word_gt_0) unat_arith
  note cur = step_later_velocity [OF assms(3) later] step_grad(1) [OF assms(3)]
  have formula: "modifier K HestenesStiefel s =
      inner (metric s (x s)) (grad s)
        (grad s - parallelTranslate K (geodesic s) (lastGrad s) (ls_alpha K (lineSearch s))) /
      inner (metric s (x s)) (ptLastVel s)
        (grad s - parallelTranslate K (geodesic s) (lastGrad s) (ls_alpha K (lineSearch s)))"
    by (simp add: Let_def)
  from prev cur show ?thesis
    unfolding formula by (simp add: default_Scheme_def Let_def)
qed

theorem hestenes_stiefel_beta_witness:
  "n cg_a < maxSteps cg_a \<and>
   step plane HestenesStiefel bowl bowl_gradient cg_a = (True, cg_b) \<and>
   step plane HestenesStiefel bowl bowl_gradient (cg_b\<lparr>n := n cg_b + 1\<rparr>) = (True, cg_c) \<and>
   inner (metric cg_b (x cg_b)) (bowl_gradient (x cg_b))
     (bowl_gradient (x cg_b) -
      parallelTranslate plane (geodesic cg_b) (bowl_gradient (x cg_a)) (ls_alpha plane (lineSearch cg_b))) /
   inner (metric cg_b (x cg_b)) (ptLastVel cg_c)
     (bowl_gradient (x cg_b) -
      parallelTranslate plane (geodesic cg_b) (bowl_gradient (x cg_a)) (ls_alpha plane (lineSearch cg_b)))
     = 1 / 9 \<and>
   velocity cg_c = - grad cg_c + scale plane (ptLastVel cg_c) (1 / 9)"
proof -
  have lt: "n cg_a < maxSteps cg_a"
    by (simp add: cg_a_def cg_new_def)
  have beta: "inner (metric cg_b (x cg_b)) (bowl_gradient (x cg_b))
     (bowl_gradient (x cg_b) -
      parallelTranslate plane (geodesic cg_b) (bowl_gradient (x cg_a)) (ls_alpha plane (lineSearch cg_b))) /
   inner (metric cg_b (x cg_b)) (ptLastVel cg_c)
     (bowl_gradient (x cg_b) -
      parallelTranslate plane (geodesic cg_b) (bowl_gradient (x cg_a)) (ls_alpha plane (lineSearch cg_b)))
     = 1 / 9"
    by (simp add: cg_a_def cg_new_def cg_b_def cg_c_def plane_def euclid_def)
  from hestenes_stiefel_beta [OF lt step_cg_a step_cg_b_HS]
  have "velocity cg_c = - grad cg_c + scale plane (ptLastVel cg_c) (1 / 9)"
    unfolding Let_def beta by simp
  with lt beta step_cg_a [of HestenesStiefel] step_cg_b_HS show ?thesis
    by simp
qed

text \<open>
  C5. The Fletcher-Reeves \<open>modifier\<close> is \<open>norm2\<close> of \<open>grad\<close> under the metric at \<open>x\<close>
  divided by \<open>norm2\<close> of \<open>lastGrad\<close> under the metric at \<open>lastX\<close>. In a run, where the
  iteration \<open>s1 \<rightarrow> s2\<close> follows the successful iteration \<open>s0 \<rightarrow> s1\<close>: \<open>grad\<close> is then the
  gradient at the current point, \<open>lastX\<close> is the previous point and \<open>lastGrad\<close> the
  gradient there, and the velocity the iteration leaves is \<open>- grad + ptLastVel * beta\<close>
  with this \<open>beta\<close>.
\<close>

theorem fletcher_reeves_beta:
  assumes "n s0 < maxSteps s0"
    and "step K FletcherReeves cost gradient s0 = (True, s1)"
    and "step K FletcherReeves cost gradient (s1\<lparr>n := n s1 + 1\<rparr>) = (ok, s2)"
  shows
    "modifier K FletcherReeves s =
       norm2 (metric s (x s)) (grad s) / norm2 (metric s (lastX s)) (lastGrad s) \<and>
     (let beta = norm2 (metric s1 (x s1)) (gradient (x s1)) /
                 norm2 (metric s1 (x s0)) (gradient (x s0))
      in lastX s1 = x s0 \<and> grad s1 = gradient (x s0) \<and> grad s2 = gradient (x s1) \<and>
         velocity s2 = - grad s2 + scale K (ptLastVel s2) beta)"
proof -
  note prev = step_succeeded [OF assms(2)]
  have "n s1 = n s0"
    using assms(2) by (rule step_keeps_counters)
  with assms(1) have later: "0 < n (s1\<lparr>n := n s1 + 1\<rparr>)"
    by (simp add: word_gt_0) unat_arith
  note cur = step_later_velocity [OF assms(3) later] step_grad(1) [OF assms(3)]
  from prev cur show ?thesis
    by (simp add: Let_def)
qed

theorem fletcher_reeves_beta_witness:
  "n cg_a < maxSteps cg_a \<and>
   step plane FletcherReeves bowl bowl_gradient cg_a = (True, cg_b) \<and>
   step plane FletcherReeves bowl bowl_gradient (cg_b\<lparr>n := n cg_b + 1\<rparr>) = (True, cg_c) \<and>
   norm2 (metric cg_b (x cg_b)) (bowl_gradient (x cg_b)) = 32 / 9 \<and>
   norm2 (metric cg_b (x cg_a)) (bowl_gradient (x cg_a)) = 32 \<and>
   velocity cg_c = - grad cg_c + scale plane (ptLastVel cg_c) ((32 / 9) / 32)"
proof -
  have lt: "n cg_a < maxSteps cg_a"
    by (simp add: cg_a_def cg_new_def)
  have num: "norm2 (metric cg_b (x cg_b)) (bowl_gradient (x cg_b)) = 32 / 9"
    by (simp add: cg_b_def euclid_def)
  have den: "norm2 (metric cg_b (x cg_a)) (bowl_gradient (x cg_a)) = 32"
    by (simp add: cg_a_def cg_new_def cg_b_def euclid_def)
  from fletcher_reeves_beta [OF lt step_cg_a step_cg_b_FR]
  have "velocity cg_c = - grad cg_c + scale plane (ptLastVel cg_c) ((32 / 9) / 32)"
    unfolding Let_def num den by simp
  with lt num den step_cg_a [of FletcherReeves] step_cg_b_FR show ?thesis
    by simp
qed

subsection \<open>The line search along the geodesic\<close>

text \<open>
  C6. In every call to \<open>step\<close> the line search is started, on the line-search object
  as the call found it, with the value function \<open>t \<mapsto> cost(geodesic(t))\<close> and the
  derivative function that maps \<open>t\<close> to the metric's inner product at \<open>geodesic(t)\<close> of
  \<open>gradient(geodesic(t))\<close> with the geodesic's velocity transported to \<open>t\<close>. Here
  \<open>geodesic\<close> is the geodesic the call bound to \<open>x\<close> and the new velocity. The call
  keeps the line-search object the search returns, succeeds exactly when the returned
  \<open>alpha\<close> is not \<open>\<le> 0\<close>, and then moves \<open>x\<close> to \<open>geodesic(alpha)\<close>.
\<close>

theorem step_line_search:
  assumes "step K sch cost gradient s = (ok, s')"
  shows "geodesic s' = geo_set K (geodesic s) (x s) (velocity s') \<and>
    (let g = geodesic s';
         (alpha, l) =
           ls_search K (lineSearch s)
             (\<lambda>t. cost (geo_at K g t))
             (\<lambda>t. inner (metric s (geo_at K g t)) (gradient (geo_at K g t))
                    (parallelTranslate K g (geo_velocity K g) t))
     in lineSearch s' = l \<and> ok = (\<not> alpha \<le> 0) \<and> (ok \<longrightarrow> x s' = geo_at K g alpha))"
  using assms
  by (auto simp: step_def search_along_def Let_def split: prod.splits if_splits)

theorem step_line_search_witness:
  "step plane HestenesStiefel bowl bowl_gradient cg_a = (True, cg_b) \<and>
   geodesic cg_b = (Vec2 2 1, Vec2 (- 4) (- 4)) \<and>
   ls_search plane (lineSearch cg_a)
     (\<lambda>t. bowl (geo_at plane (geodesic cg_b) t))
     (\<lambda>t. inner (metric cg_a (geo_at plane (geodesic cg_b) t))
            (bowl_gradient (geo_at plane (geodesic cg_b) t))
            (parallelTranslate plane (geodesic cg_b) (geo_velocity plane (geodesic cg_b)) t))
     = (1 / 3, lineSearch cg_b) \<and>
   x cg_b = geo_at plane (geodesic cg_b) (1 / 3)"
proof -
  have a: "step plane HestenesStiefel bowl bowl_gradient cg_a = (True, cg_b)"
    by (rule step_cg_a)
  have call: "ls_search plane (lineSearch cg_a)
     (\<lambda>t. bowl (geo_at plane (geodesic cg_b) t))
     (\<lambda>t. inner (metric cg_a (geo_at plane (geodesic cg_b) t))
            (bowl_gradient (geo_at plane (geodesic cg_b) t))
            (parallelTranslate plane (geodesic cg_b) (geo_velocity plane (geodesic cg_b)) t))
     = (1 / 3, 1 / 3)"
    by (simp add: plane_def euclid_def secant_search_def cg_a_def cg_new_def cg_b_def Let_def)
  from step_line_search [OF a] call
  have "geodesic cg_b = geo_set plane (geodesic cg_a) (x cg_a) (velocity cg_b) \<and>
      lineSearch cg_b = 1 / 3 \<and> x cg_b = geo_at plane (geodesic cg_b) (1 / 3)"
    by simp
  moreover have "geo_set plane (geodesic cg_a) (x cg_a) (velocity cg_b) = (Vec2 2 1, Vec2 (- 4) (- 4))"
    by (simp add: plane_def cg_a_def cg_new_def cg_b_def)
  ultimately show ?thesis
    using a call by simp
qed

subsection \<open>A failed step\<close>

text \<open>
  C3. When the line search of a call to \<open>step\<close> returns an \<open>alpha \<le> 0\<close>, the call returns
  \<open>false\<close> and the fields \<open>x\<close> and \<open>lastX\<close> are as they were before the call. If the
  call was made by the loop of \<open>optimize\<close> (so \<open>n < maxSteps\<close> held), the loop ends with
  this call: it makes no further call, and the optimizer it leaves is the one the
  failed call left, whose \<open>x\<close> is the point the loop had reached before the call.
  The point \<open>optimize\<close> returns is always the \<open>x\<close> left by the last successful call of
  its run, or \<open>initial\<close> when no call succeeded.
\<close>

theorem failed_step_keeps_position:
  assumes "step K sch cost gradient s = (ok, s')"
    and "fst (search_along K (metric s) cost gradient (geodesic s') (lineSearch s)) \<le> 0"
  shows "\<not> ok \<and> x s' = x s \<and> lastX s' = lastX s \<and>
    (n s < maxSteps s \<longrightarrow>
       optimize_trace K sch cost gradient s = [(False, s')] \<and>
       optimize_loop K sch cost gradient s = s' \<and>
       x (optimize_loop K sch cost gradient s) = x s) \<and>
    fst (optimize K sch initial cost gradient r) =
      last (initial # map (\<lambda>c. x (snd c))
        (filter fst (optimize_trace K sch cost gradient (optimize_start K initial r))))"
proof -
  have g: "geodesic s' = geo_set K (geodesic s) (x s) (velocity s')"
    using assms(1) by (auto simp: step_def Let_def split: prod.splits if_splits)
  have v: "velocity s' =
      (if 0 < n s then
         - gradient (x s) +
         scale K (parallelTranslate K (geodesic s) (geo_velocity K (geodesic s)) (ls_alpha K (lineSearch s)))
           (modifier K sch (s\<lparr>lastGrad := grad s, grad := gradient (x s), velocity := - gradient (x s),
              ptLastVel := parallelTranslate K (geodesic s) (geo_velocity K (geodesic s))
                (ls_alpha K (lineSearch s))\<rparr>))
       else - gradient (x s))"
    using assms(1) by (auto simp: step_def Let_def split: prod.splits if_splits)
  have nok: "\<not> ok"
    using assms(1) assms(2) [unfolded g v]
    by (auto simp: step_def Let_def split: prod.splits if_splits)
  have frame: "x s' = x s \<and> lastX s' = lastX s"
    using assms(1) nok by (auto simp: step_def Let_def split: prod.splits if_splits)
  from nok assms(1) have failed: "step K sch cost gradient s = (False, s')"
    by simp
  have returned: "fst (optimize K sch initial cost gradient r) =
      last (initial # map (\<lambda>c. x (snd c))
        (filter fst (optimize_trace K sch cost gradient (optimize_start K initial r))))"
    using optimize_loop_last_success [of K sch cost gradient "optimize_start K initial r"]
    by (simp add: optimize_def Let_def optimize_start_def)
  show ?thesis
    using nok frame optimize_trace_failed [OF _ failed] optimize_loop_failed [OF _ failed] returned
    by simp
qed

theorem failed_step_keeps_position_witness:
  "step plane HestenesStiefel bowl bowl_gradient (cg_c\<lparr>n := n cg_c + 1\<rparr>) = (False, cg_d) \<and>
   fst (search_along plane (metric cg_c) bowl bowl_gradient (geodesic cg_d) (lineSearch cg_c)) = 0 \<and>
   n (cg_c\<lparr>n := n cg_c + 1\<rparr>) < maxSteps cg_c \<and>
   x cg_d = x cg_c \<and> lastX cg_d = lastX cg_c \<and>
   optimize_trace plane HestenesStiefel bowl bowl_gradient (cg_c\<lparr>n := n cg_c + 1\<rparr>) = [(False, cg_d)] \<and>
   optimize_loop plane HestenesStiefel bowl bowl_gradient (cg_c\<lparr>n := n cg_c + 1\<rparr>) = cg_d \<and>
   x cg_d = Vec2 0 0 \<and>
   fst (optimize plane HestenesStiefel (Vec2 2 1) bowl bowl_gradient cg_new) = x cg_c"
proof -
  have c: "step plane HestenesStiefel bowl bowl_gradient (cg_c\<lparr>n := n cg_c + 1\<rparr>) = (False, cg_d)"
    by (rule step_cg_c_HS)
  have alpha: "fst (search_along plane (metric cg_c) bowl bowl_gradient (geodesic cg_d) (lineSearch cg_c)) = 0"
    by (simp add: search_along_def plane_def secant_search_def cg_c_def cg_d_def euclid_def Let_def)
  have lt: "n (cg_c\<lparr>n := n cg_c + 1\<rparr>) < maxSteps cg_c"
    by (simp add: cg_c_def)
  have "\<not> False \<and> x cg_d = x (cg_c\<lparr>n := n cg_c + 1\<rparr>) \<and> lastX cg_d = lastX (cg_c\<lparr>n := n cg_c + 1\<rparr>) \<and>
    (n (cg_c\<lparr>n := n cg_c + 1\<rparr>) < maxSteps (cg_c\<lparr>n := n cg_c + 1\<rparr>) \<longrightarrow>
       optimize_trace plane HestenesStiefel bowl bowl_gradient (cg_c\<lparr>n := n cg_c + 1\<rparr>) = [(False, cg_d)] \<and>
       optimize_loop plane HestenesStiefel bowl bowl_gradient (cg_c\<lparr>n := n cg_c + 1\<rparr>) = cg_d \<and>
       x (optimize_loop plane HestenesStiefel bowl bowl_gradient (cg_c\<lparr>n := n cg_c + 1\<rparr>)) =
         x (cg_c\<lparr>n := n cg_c + 1\<rparr>)) \<and>
    fst (optimize plane HestenesStiefel (Vec2 2 1) bowl bowl_gradient cg_new) =
      last (Vec2 2 1 # map (\<lambda>c. x (snd c))
        (filter fst (optimize_trace plane HestenesStiefel bowl bowl_gradient
          (optimize_start plane (Vec2 2 1) cg_new))))"
    by (rule failed_step_keeps_position [OF c]) (simp add: alpha)
  moreover have "x cg_d = Vec2 0 0"
    by (simp add: cg_d_def)
  ultimately show ?thesis
    using c alpha lt by (simp add: start_cg_new trace_cg_a)
qed

text \<open>
  C9. A failed call to \<open>step\<close> changes the optimizer. The optimizer it leaves is the one
  it found with \<open>lastGrad\<close> holding the old \<open>grad\<close>, \<open>grad\<close> holding \<open>gradient(x)\<close>,
  \<open>velocity\<close> recomputed, \<open>ptLastVel\<close> recomputed when \<open>n > 0\<close>, the geodesic re-bound to
  \<open>x\<close> and the new velocity, and the line search as the search left it. Of the points
  and vectors it leaves \<open>x\<close> and \<open>lastX\<close> as they were (and \<open>ptLastVel\<close> when \<open>n = 0\<close>);
  \<open>n\<close>, \<open>maxSteps\<close> and the metric are not assigned by any step.
\<close>

theorem failed_step_effects:
  assumes "step K sch cost gradient s = (False, s')"
  shows
    "let g = gradient (x s);
         w = (if 0 < n s then
                parallelTranslate K (geodesic s) (geo_velocity K (geodesic s)) (ls_alpha K (lineSearch s))
              else ptLastVel s);
         v = (if 0 < n s then
                - g + scale K w (modifier K sch (s\<lparr>lastGrad := grad s, grad := g, ptLastVel := w\<rparr>))
              else - g);
         c = geo_set K (geodesic s) (x s) v
     in s' = s\<lparr>lastGrad := grad s, grad := g, velocity := v, ptLastVel := w, geodesic := c,
               lineSearch := snd (search_along K (metric s) cost gradient c (lineSearch s))\<rparr>"
proof -
  let ?w = "parallelTranslate K (geodesic s) (geo_velocity K (geodesic s)) (ls_alpha K (lineSearch s))"
  let ?g = "gradient (x s)"
  have beta: "modifier K sch (s\<lparr>lastGrad := grad s, grad := ?g, velocity := - ?g, ptLastVel := ?w\<rparr>) =
      modifier K sch (s\<lparr>lastGrad := grad s, grad := ?g, ptLastVel := ?w\<rparr>)"
    by (rule modifier_reads) simp_all
  show ?thesis
  proof (cases "0 < n s")
    case True
    with assms beta show ?thesis
      by (auto simp: step_def Let_def split: prod.splits if_splits)
  next
    case False
    with assms show ?thesis
      by (auto simp: step_def Let_def split: prod.splits if_splits)
  qed
qed

theorem failed_step_effects_witness:
  "step plane HestenesStiefel bowl bowl_gradient (cg_c\<lparr>n := n cg_c + 1\<rparr>) = (False, cg_d) \<and>
   cg_d =
     cg_c\<lparr>n := n cg_c + 1, lastGrad := Vec2 (4 / 3) (- (4 / 3)), grad := Vec2 0 0,
          velocity := Vec2 0 0, ptLastVel := Vec2 (- (16 / 9)) (8 / 9),
          geodesic := (Vec2 0 0, Vec2 0 0), lineSearch := 0\<rparr> \<and>
   cg_d \<noteq> cg_c\<lparr>n := n cg_c + 1\<rparr> \<and>
   x cg_d = x cg_c \<and> lastX cg_d = lastX cg_c"
proof -
  have c: "step plane HestenesStiefel bowl bowl_gradient (cg_c\<lparr>n := n cg_c + 1\<rparr>) = (False, cg_d)"
    by (rule step_cg_c_HS)
  from failed_step_effects [OF c]
  have "cg_d =
     cg_c\<lparr>n := n cg_c + 1, lastGrad := Vec2 (4 / 3) (- (4 / 3)), grad := Vec2 0 0,
          velocity := Vec2 0 0, ptLastVel := Vec2 (- (16 / 9)) (8 / 9),
          geodesic := (Vec2 0 0, Vec2 0 0), lineSearch := 0\<rparr>"
    by (simp add: cg_c_def search_along_def plane_def secant_search_def euclid_def Let_def)
  moreover have "cg_d \<noteq> cg_c\<lparr>n := n cg_c + 1\<rparr>"
    by (simp add: cg_c_def cg_d_def)
  moreover have "x cg_d = x cg_c \<and> lastX cg_d = lastX cg_c"
    by (simp add: cg_c_def cg_d_def)
  ultimately show ?thesis
    using c by simp
qed

subsection \<open>The first iteration\<close>

text \<open>
  C10. A call to \<open>step\<close> with \<open>n = 0\<close>, as the first call of every run of \<open>optimize\<close> is,
  does not depend on the scheme, on the contents of \<open>lastX\<close>, \<open>lastGrad\<close> and \<open>ptLastVel\<close>,
  or on what \<open>lineSearch.alpha\<close> reads: with any other scheme \<open>other\<close>, any other values
  \<open>p\<close>, \<open>g\<close>, \<open>w\<close> in the three fields and any other reading \<open>a\<close> of the stored alpha,
  the call returns the same \<open>bool\<close> and leaves the same optimizer, except that
  \<open>ptLastVel\<close> still holds \<open>w\<close> (the call does not assign it) and, when the call
  fails, \<open>lastX\<close> still holds \<open>p\<close>. The two swaps move the old \<open>lastGrad\<close> and the old
  \<open>lastX\<close> into \<open>grad\<close> and \<open>x\<close>, where the next statement overwrites them. So no scheme
  formula, and none of its divisions, is evaluated at \<open>n = 0\<close>.
\<close>

theorem first_step_ignores_history:
  assumes "n s = 0"
  shows "n (optimize_start K initial r) = 0 \<and>
    step (K\<lparr>ls_alpha := a\<rparr>) other cost gradient (s\<lparr>lastX := p, lastGrad := g, ptLastVel := w\<rparr>) =
      (let (ok, s') = step K sch cost gradient s
       in (ok, s'\<lparr>ptLastVel := w, lastX := (if ok then lastX s' else p)\<rparr>))"
  using assms
  by (auto simp: step_def search_along_def optimize_start_def Let_def split: prod.splits if_splits)

theorem first_step_ignores_history_witness:
  "n (optimize_start plane (Vec2 2 1) cg_d) = 0 \<and>
   fst (step plane HestenesStiefel bowl bowl_gradient (optimize_start plane (Vec2 2 1) cg_d)) \<and>
   step (plane\<lparr>ls_alpha := (\<lambda>l. 5)\<rparr>) FletcherReeves bowl bowl_gradient
     ((optimize_start plane (Vec2 2 1) cg_d)\<lparr>lastX := Vec2 7 7, lastGrad := Vec2 8 8, ptLastVel := Vec2 9 9\<rparr>) =
     (True, (snd (step plane HestenesStiefel bowl bowl_gradient (optimize_start plane (Vec2 2 1) cg_d)))
              \<lparr>ptLastVel := Vec2 9 9\<rparr>)"
proof -
  let ?s = "optimize_start plane (Vec2 2 1) cg_d"
  have n0: "n ?s = 0"
    by (simp add: optimize_start_def)
  have ok: "fst (step plane HestenesStiefel bowl bowl_gradient ?s)"
    by (simp add: plane_simps optimize_start_def cg_d_def)
  from first_step_ignores_history [OF n0, where K = plane and a = "\<lambda>l. 5" and
      other = FletcherReeves and sch = HestenesStiefel and cost = bowl and gradient = bowl_gradient and
      p = "Vec2 7 7" and g = "Vec2 8 8" and w = "Vec2 9 9"]
  have "step (plane\<lparr>ls_alpha := (\<lambda>l. 5)\<rparr>) FletcherReeves bowl bowl_gradient
     (?s\<lparr>lastX := Vec2 7 7, lastGrad := Vec2 8 8, ptLastVel := Vec2 9 9\<rparr>) =
     (True, (snd (step plane HestenesStiefel bowl bowl_gradient ?s))\<lparr>ptLastVel := Vec2 9 9\<rparr>)"
    using ok by (simp add: case_prod_beta)
  then show ?thesis
    using n0 ok by simp
qed

subsection \<open>The driver\<close>

text \<open>
  C2. \<open>optimize(initial, cost, gradient)\<close> sets \<open>x\<close> to \<open>initial\<close>, resets the line search,
  and from \<open>n = 0\<close> calls \<open>step\<close> while \<open>n < maxSteps\<close> and the call before succeeded, with
  \<open>n\<close> counted up after each success: that is at most \<open>maxSteps\<close> calls, ending with the
  first that fails. It returns the \<open>x\<close> of the optimizer the iteration ends in. The
  source's loop on the 32-bit counter and the specification's iteration agree.
\<close>

theorem optimize_iterates_step:
  "optimize K sch initial cost gradient s =
     (let s0 = s\<lparr>x := initial, lineSearch := ls_reset K (lineSearch s), n := 0\<rparr>;
          s' = iterate_steps (unat (maxSteps s)) K sch cost gradient s0
      in (x s', s'))"
proof -
  have "n (optimize_start K initial s) \<le> maxSteps (optimize_start K initial s)"
    by (simp add: optimize_start_def)
  from optimize_loop_iterate [OF this] show ?thesis
    by (simp add: optimize_def optimize_start_def)
qed

theorem optimize_iterates_step_witness:
  "optimize plane HestenesStiefel (Vec2 2 1) bowl bowl_gradient cg_new = (Vec2 0 0, cg_d) \<and>
   iterate_steps (unat (maxSteps cg_new)) plane HestenesStiefel bowl bowl_gradient
     (cg_new\<lparr>x := Vec2 2 1, lineSearch := ls_reset plane (lineSearch cg_new), n := 0\<rparr>) = cg_d"
proof -
  have run: "optimize plane HestenesStiefel (Vec2 2 1) bowl bowl_gradient cg_new = (Vec2 0 0, cg_d)"
    by (simp add: optimize_def start_cg_new loop_cg_a) (simp add: cg_d_def)
  with optimize_iterates_step [of plane HestenesStiefel "Vec2 2 1" bowl bowl_gradient cg_new]
  show ?thesis
    by (simp add: Let_def)
qed

subsection \<open>The iteration cap\<close>

text \<open>
  C7. \<open>optimize\<close> returns, after at most \<open>maxSteps\<close> calls to \<open>step\<close>. Its calls are the
  chain \<open>calls\<close>: the first is \<open>step\<close> on the optimizer with \<open>x = initial\<close>, the line search
  reset and \<open>n = 0\<close>; each further one follows a call that succeeded and is \<open>step\<close> on
  the optimizer that call left, with \<open>n\<close> counted up. What \<open>optimize\<close> returns is the end
  of this chain: the optimizer the last call left (with \<open>n\<close> counted up once more when
  that call succeeded) and its \<open>x\<close>; the \<open>n\<close> it leaves is the number of calls that
  succeeded. \<open>optimize\<close> has no test of its own that ends the run: when it has made
  fewer than \<open>maxSteps\<close> calls, the last call failed. When no call fails, it makes
  exactly \<open>maxSteps\<close> calls and ends with \<open>n = maxSteps\<close>; and no call fails when the line
  search never returns an \<open>alpha \<le> 0\<close>. (That \<open>optimize\<close> returns at all is the
  termination of \<open>optimize_loop\<close>, proved with its definition.)
\<close>

theorem optimize_step_count:
  "let s0 = s\<lparr>x := initial, lineSearch := ls_reset K (lineSearch s), n := 0\<rparr>;
       calls = optimize_trace K sch cost gradient s0;
       (p, s') = optimize K sch initial cost gradient s
   in (calls \<noteq> [] \<longrightarrow> calls ! 0 = step K sch cost gradient s0) \<and>
      (\<forall>i. Suc i < length calls \<longrightarrow>
         fst (calls ! i) \<and>
         calls ! Suc i =
           step K sch cost gradient ((snd (calls ! i))\<lparr>n := n (snd (calls ! i)) + 1\<rparr>)) \<and>
      s' = (if calls = [] then s0
            else if fst (last calls) then (snd (last calls))\<lparr>n := n (snd (last calls)) + 1\<rparr>
            else snd (last calls)) \<and>
      p = x s' \<and>
      n s' = of_nat (length (filter fst calls)) \<and>
      length calls \<le> unat (maxSteps s) \<and>
      (length calls < unat (maxSteps s) \<longrightarrow> calls \<noteq> [] \<and> \<not> fst (last calls)) \<and>
      (list_all fst calls \<longrightarrow> length calls = unat (maxSteps s) \<and> n s' = maxSteps s) \<and>
      ((\<forall>l f df. \<not> fst (ls_search K l f df) \<le> 0) \<longrightarrow> list_all fst calls)"
proof -
  define s0 where "s0 = s\<lparr>x := initial, lineSearch := ls_reset K (lineSearch s), n := 0\<rparr>"
  define calls where "calls = optimize_trace K sch cost gradient s0"
  define s' where "s' = optimize_loop K sch cost gradient s0"
  have start: "optimize_start K initial s = s0"
    by (simp add: optimize_start_def s0_def)
  then have result: "optimize K sch initial cost gradient s = (x s', s')"
    by (simp add: optimize_def s'_def Let_def)
  have n0: "n s0 = 0" and cap: "maxSteps s0 = maxSteps s"
    by (simp_all add: s0_def)
  then have le: "n s0 \<le> maxSteps s0"
    by simp
  note count = optimize_trace_length [OF le, of K sch cost gradient, folded calls_def s'_def]
  have head: "calls ! 0 = step K sch cost gradient s0" if "calls \<noteq> []"
    using that optimize_trace_head(2) [of K sch cost gradient s0] by (simp add: calls_def)
  have chain: "fst (calls ! i) \<and>
      calls ! Suc i = step K sch cost gradient ((snd (calls ! i))\<lparr>n := n (snd (calls ! i)) + 1\<rparr>)"
    if "Suc i < length calls" for i
    using that optimize_trace_chain [of i K sch cost gradient s0] by (simp add: calls_def)
  have final: "s' = (if calls = [] then s0
      else if fst (last calls) then (snd (last calls))\<lparr>n := n (snd (last calls)) + 1\<rparr>
      else snd (last calls))"
    unfolding s'_def calls_def
    by (subst optimize_loop_trace) (simp add: case_prod_beta split: list.splits)
  have counted: "n s' = of_nat (length (filter fst calls))"
    using optimize_loop_counts [of K sch cost gradient s0] n0 by (simp add: s'_def calls_def)
  have bound: "length calls \<le> unat (maxSteps s)"
    using count n0 cap by simp
  have short: "calls \<noteq> [] \<and> \<not> fst (last calls)" if "length calls < unat (maxSteps s)"
  proof -
    from that count n0 cap have "\<not> list_all fst calls"
      by auto
    then obtain r where r: "r \<in> set calls" "\<not> fst r"
      by (auto simp: list_all_iff)
    then have ne: "calls \<noteq> []"
      by auto
    have "r \<notin> set (butlast calls)"
      using r(2) optimize_trace_butlast unfolding calls_def by blast
    with r(1) ne have "r = last calls"
      by (metis append_butlast_last_id insert_iff list.set(1,2) set_append Un_iff)
    with r(2) ne show ?thesis
      by simp
  qed
  have full: "length calls = unat (maxSteps s) \<and> n s' = maxSteps s" if "list_all fst calls"
    using that count n0 cap by simp
  have positive: "list_all fst calls" if "\<forall>l f df. \<not> fst (ls_search K l f df) \<le> 0"
    unfolding calls_def using that by (rule optimize_trace_all_succeed)
  from head chain final counted bound short full positive show ?thesis
    unfolding Let_def result s0_def [symmetric] calls_def [symmetric] by simp
qed


theorem optimize_step_count_witness:
  "fst (optimize unit_step PolakRibiere (Vec2 0 0) slope slope_gradient (cg_new\<lparr>maxSteps := 3\<rparr>))
     = Vec2 3 0 \<and>
   n (snd (optimize unit_step PolakRibiere (Vec2 0 0) slope slope_gradient (cg_new\<lparr>maxSteps := 3\<rparr>)))
     = 3 \<and>
   length (optimize_trace unit_step PolakRibiere slope slope_gradient
     (optimize_start unit_step (Vec2 0 0) (cg_new\<lparr>maxSteps := 3\<rparr>))) = 3 \<and>
   visited unit_step PolakRibiere (Vec2 0 0) slope slope_gradient (cg_new\<lparr>maxSteps := 3\<rparr>) =
     [(True, Vec2 1 0), (True, Vec2 2 0), (True, Vec2 3 0)] \<and>
   optimize plane HestenesStiefel (Vec2 2 1) bowl bowl_gradient cg_new = (Vec2 0 0, cg_d) \<and>
   optimize_trace plane HestenesStiefel bowl bowl_gradient (optimize_start plane (Vec2 2 1) cg_new) =
     [(True, cg_b), (True, cg_c), (False, cg_d)] \<and>
   3 < unat (maxSteps cg_new) \<and>
   n cg_d = 2"
proof -
  let ?s = "cg_new\<lparr>maxSteps := 3\<rparr>"
  let ?calls = "optimize_trace unit_step PolakRibiere slope slope_gradient
    (optimize_start unit_step (Vec2 0 0) ?s)"
  let ?result = "optimize unit_step PolakRibiere (Vec2 0 0) slope slope_gradient ?s"
  have positive: "\<forall>l f df. \<not> fst (ls_search unit_step l f df) \<le> 0"
    by (simp add: unit_step_def plane_def)
  have start: "optimize_start unit_step (Vec2 0 0) ?s =
      ?s\<lparr>x := Vec2 0 0, lineSearch := ls_reset unit_step (lineSearch ?s), n := 0\<rparr>"
    by (simp add: optimize_start_def)
  have points: "visited unit_step PolakRibiere (Vec2 0 0) slope slope_gradient ?s =
      [(True, Vec2 1 0), (True, Vec2 2 0), (True, Vec2 3 0)]"
    by (simp add: visited_def optimize_start_def optimize_trace.simps unit_step_def plane_simps
        cg_new_def)
  note count = optimize_step_count [where s = ?s and initial = "Vec2 0 0" and K = unit_step and
      sch = PolakRibiere and cost = slope and gradient = slope_gradient, folded start]
  from count positive have len: "length ?calls = 3"
    by (auto simp: Let_def case_prod_beta)
  from count positive have cnt: "n (snd ?result) = 3"
    by (auto simp: Let_def case_prod_beta)
  from count positive have all: "list_all fst ?calls"
    by (auto simp: Let_def case_prod_beta)
  from len have ne: "?calls \<noteq> []"
    by auto
  from all ne have "fst (last ?calls)"
    by (simp add: list_all_iff)
  with count ne have "fst ?result = x (snd (last ?calls))"
    by (auto simp: Let_def case_prod_beta)
  moreover have "x (snd (last ?calls)) = Vec2 3 0"
    using points by (auto simp: visited_def map_eq_Cons_conv)
  ultimately have ret: "fst ?result = Vec2 3 0"
    by simp
  have run: "optimize plane HestenesStiefel (Vec2 2 1) bowl bowl_gradient cg_new = (Vec2 0 0, cg_d)"
    by (simp add: optimize_def start_cg_new loop_cg_a) (simp add: cg_d_def)
  have tr: "optimize_trace plane HestenesStiefel bowl bowl_gradient
      (optimize_start plane (Vec2 2 1) cg_new) = [(True, cg_b), (True, cg_c), (False, cg_d)]"
    by (simp add: start_cg_new trace_cg_a)
  have cap: "3 < unat (maxSteps cg_new)"
    by (simp add: cg_new_def)
  have plane_start: "optimize_start plane (Vec2 2 1) cg_new =
      cg_new\<lparr>x := Vec2 2 1, lineSearch := ls_reset plane (lineSearch cg_new), n := 0\<rparr>"
    by (simp add: optimize_start_def)
  note short = optimize_step_count [where s = cg_new and initial = "Vec2 2 1" and K = plane and
      sch = HestenesStiefel and cost = bowl and gradient = bowl_gradient, folded plane_start]
  from short have "n (snd (optimize plane HestenesStiefel (Vec2 2 1) bowl bowl_gradient cg_new)) =
      of_nat (length (filter fst (optimize_trace plane HestenesStiefel bowl bowl_gradient
        (optimize_start plane (Vec2 2 1) cg_new))))"
    by (auto simp: Let_def case_prod_beta)
  then have nd: "n cg_d = 2"
    by (simp add: run tr)
  show ?thesis
    by (intro conjI ret cnt len points run tr cap nd)
qed

subsection \<open>Running \<open>optimize\<close> again\<close>

text \<open>
  C8. \<open>optimize\<close> resets \<open>x\<close>, the line search and \<open>n\<close> and nothing else: a second call on
  the same optimizer starts with the geodesic, \<open>lastX\<close>, \<open>grad\<close>, \<open>lastGrad\<close>, \<open>velocity\<close>
  and \<open>ptLastVel\<close> the first call left. All the same, a second call with the same
  initial point, cost and gradient makes the same calls to \<open>step\<close> with the same results,
  visits the same points and returns the same point. The geodesic and the line
  search are not part of the file; what is used of them is what their contracts say:
  \<open>set(p, v)\<close> re-binds the geodesic whatever it was bound to, and \<open>reset()\<close> leaves
  the line search with no memory of what it held.
\<close>

theorem optimize_twice_same_trajectory:
  assumes "\<forall>c c' p v. geo_set K c p v = geo_set K c' p v"
    and "\<forall>l l'. ls_reset K l = ls_reset K l'"
  shows
    "let (p1, s1) = optimize K sch initial cost gradient s
     in optimize_start K initial s1 =
          s1\<lparr>x := initial, lineSearch := ls_reset K (lineSearch s1), n := 0\<rparr> \<and>
        fst (optimize K sch initial cost gradient s1) = p1 \<and>
        visited K sch initial cost gradient s1 = visited K sch initial cost gradient s"
proof -
  define s0 where "s0 = optimize_start K initial s"
  define s1 where "s1 = optimize_loop K sch cost gradient s0"
  have n0: "n s0 = 0"
    by (simp add: s0_def optimize_start_def)
  have "maxSteps s1 = maxSteps s0" "metric s1 = metric s0"
    using optimize_loop_keeps [of K sch cost gradient s0] by (simp_all add: s1_def)
  then have kept: "maxSteps s1 = maxSteps s" "metric s1 = metric s"
    by (simp_all add: s0_def optimize_start_def)
  from assms(2) have cleared: "ls_reset K (lineSearch s1) = ls_reset K (lineSearch s)"
    by blast
  have again: "optimize_start K initial s1 =
      s0\<lparr>geodesic := geodesic s1, lastX := lastX s1, grad := grad s1, lastGrad := lastGrad s1,
         velocity := velocity s1, ptLastVel := ptLastVel s1\<rparr>"
    by (rule ConjugateGradient.equality) (simp_all add: s0_def optimize_start_def kept cleared)
  note same = optimize_loop_inherited [OF assms(1) n0, where sch = sch and cost = cost and
      gradient = gradient and c = "geodesic s1" and p = "lastX s1" and h = "grad s1" and
      g = "lastGrad s1" and v = "velocity s1" and w = "ptLastVel s1", folded again]
  have "optimize_start K initial s1 =
      s1\<lparr>x := initial, lineSearch := ls_reset K (lineSearch s1), n := 0\<rparr>"
    by (simp add: optimize_start_def)
  moreover have "fst (optimize K sch initial cost gradient s1) = x s1"
    using same by (simp add: optimize_def Let_def s1_def s0_def)
  moreover have "visited K sch initial cost gradient s1 = visited K sch initial cost gradient s"
    using same by (simp add: visited_def s0_def)
  ultimately show ?thesis
    by (simp add: optimize_def Let_def s1_def s0_def)
qed

theorem optimize_twice_same_trajectory_witness:
  "optimize plane HestenesStiefel (Vec2 2 1) bowl bowl_gradient cg_new = (Vec2 0 0, cg_d) \<and>
   cg_d \<noteq> cg_new \<and>
   fst (optimize plane HestenesStiefel (Vec2 2 1) bowl bowl_gradient cg_d) = Vec2 0 0 \<and>
   visited plane HestenesStiefel (Vec2 2 1) bowl bowl_gradient cg_new =
     [(True, Vec2 (2 / 3) (- (1 / 3))), (True, Vec2 0 0), (False, Vec2 0 0)] \<and>
   visited plane HestenesStiefel (Vec2 2 1) bowl bowl_gradient cg_d =
     [(True, Vec2 (2 / 3) (- (1 / 3))), (True, Vec2 0 0), (False, Vec2 0 0)]"
proof -
  have rebinds: "\<forall>c c' p v. geo_set plane c p v = geo_set plane c' p v"
    by (simp add: plane_def)
  have clears: "\<forall>l l'. ls_reset plane l = ls_reset plane l'"
    by (simp add: plane_def)
  have run: "optimize plane HestenesStiefel (Vec2 2 1) bowl bowl_gradient cg_new = (Vec2 0 0, cg_d)"
    by (simp add: optimize_def start_cg_new loop_cg_a) (simp add: cg_d_def)
  have first: "visited plane HestenesStiefel (Vec2 2 1) bowl bowl_gradient cg_new =
      [(True, Vec2 (2 / 3) (- (1 / 3))), (True, Vec2 0 0), (False, Vec2 0 0)]"
    by (simp add: visited_def start_cg_new trace_cg_a) (simp add: cg_b_def cg_c_def cg_d_def)
  have differ: "cg_d \<noteq> cg_new"
    by (simp add: cg_d_def cg_new_def)
  from optimize_twice_same_trajectory [OF rebinds clears, of HestenesStiefel "Vec2 2 1" bowl
      bowl_gradient cg_new] run
  have "fst (optimize plane HestenesStiefel (Vec2 2 1) bowl bowl_gradient cg_d) = Vec2 0 0 \<and>
      visited plane HestenesStiefel (Vec2 2 1) bowl bowl_gradient cg_d =
        visited plane HestenesStiefel (Vec2 2 1) bowl bowl_gradient cg_new"
    by simp
  with run first differ show ?thesis
    by simp
qed

end
